theory Spec2Isabelle
  imports Complex_Main
begin

section \<open>JavaScript numbers\<close>

text \<open>
  The program computes on JavaScript numbers. They are modelled as the real numbers
  extended by the three special values of IEEE-754: every operation below follows the
  special-value rules of ECMAScript (a NaN operand gives NaN, a division by zero gives an
  infinity or NaN, \<open>Math.pow\<close> of a negative base and a fractional exponent gives NaN),
  and computes exactly on finite operands. Rounding, overflow and the sign of zero are not
  modelled. No operation throws.
\<close>

datatype jsnum = NaN | NInf | Num real | PInf

instantiation jsnum :: "{plus, minus, uminus, times, inverse, ord}"
begin

fun plus_jsnum :: "jsnum \<Rightarrow> jsnum \<Rightarrow> jsnum" where
  "plus_jsnum NaN _ = NaN"
| "plus_jsnum _ NaN = NaN"
| "plus_jsnum (Num x) (Num y) = Num (x + y)"
| "plus_jsnum PInf NInf = NaN"
| "plus_jsnum NInf PInf = NaN"
| "plus_jsnum PInf _ = PInf"
| "plus_jsnum _ PInf = PInf"
| "plus_jsnum NInf _ = NInf"
| "plus_jsnum _ NInf = NInf"

fun uminus_jsnum :: "jsnum \<Rightarrow> jsnum" where
  "uminus_jsnum NaN = NaN"
| "uminus_jsnum NInf = PInf"
| "uminus_jsnum PInf = NInf"
| "uminus_jsnum (Num x) = Num (- x)"

definition minus_jsnum :: "jsnum \<Rightarrow> jsnum \<Rightarrow> jsnum" where
  "minus_jsnum (x::jsnum) (y::jsnum) = x + (- y)"

text \<open>The sign of a product or quotient with an infinite operand: \<open>s\<close> is the sign of
  the finite operand, \<open>pos\<close> tells whether the infinite one is positive.\<close>

definition signedInf :: "bool \<Rightarrow> real \<Rightarrow> jsnum" where
  "signedInf pos s = (if s = 0 then NaN else if (0 < s) = pos then PInf else NInf)"

fun times_jsnum :: "jsnum \<Rightarrow> jsnum \<Rightarrow> jsnum" where
  "times_jsnum NaN _ = NaN"
| "times_jsnum _ NaN = NaN"
| "times_jsnum (Num x) (Num y) = Num (x * y)"
| "times_jsnum (Num x) PInf = signedInf True x"
| "times_jsnum (Num x) NInf = signedInf False x"
| "times_jsnum PInf (Num y) = signedInf True y"
| "times_jsnum NInf (Num y) = signedInf False y"
| "times_jsnum PInf PInf = PInf"
| "times_jsnum NInf NInf = PInf"
| "times_jsnum PInf NInf = NInf"
| "times_jsnum NInf PInf = NInf"

fun divide_jsnum :: "jsnum \<Rightarrow> jsnum \<Rightarrow> jsnum" where
  "divide_jsnum NaN _ = NaN"
| "divide_jsnum _ NaN = NaN"
| "divide_jsnum (Num x) (Num y) = (if y = 0 then signedInf True x else Num (x / y))"
| "divide_jsnum (Num x) PInf = Num 0"
| "divide_jsnum (Num x) NInf = Num 0"
| "divide_jsnum PInf (Num y) = (if 0 \<le> y then PInf else NInf)"
| "divide_jsnum NInf (Num y) = (if 0 \<le> y then NInf else PInf)"
| "divide_jsnum _ _ = NaN"

fun inverse_jsnum :: "jsnum \<Rightarrow> jsnum" where
  "inverse_jsnum NaN = NaN"
| "inverse_jsnum (Num y) = (if y = 0 then PInf else Num (inverse y))"
| "inverse_jsnum _ = Num 0"

text \<open>\<open>x \<le> y\<close> and \<open>x < y\<close> are the comparisons of JavaScript: false when an operand
  is NaN.\<close>

fun less_eq_jsnum :: "jsnum \<Rightarrow> jsnum \<Rightarrow> bool" where
  "less_eq_jsnum NaN _ = False"
| "less_eq_jsnum _ NaN = False"
| "less_eq_jsnum NInf _ = True"
| "less_eq_jsnum _ PInf = True"
| "less_eq_jsnum (Num x) (Num y) = (x \<le> y)"
| "less_eq_jsnum _ _ = False"

fun less_jsnum :: "jsnum \<Rightarrow> jsnum \<Rightarrow> bool" where
  "less_jsnum NaN _ = False"
| "less_jsnum _ NaN = False"
| "less_jsnum (Num x) (Num y) = (x < y)"
| "less_jsnum PInf _ = False"
| "less_jsnum _ NInf = False"
| "less_jsnum NInf _ = True"
| "less_jsnum _ PInf = True"

instance ..

end

text \<open>Strict equality \<open>===\<close> on numbers: NaN equals nothing.\<close>

definition strictEq :: "jsnum \<Rightarrow> jsnum \<Rightarrow> bool" where
  "strictEq x y = (x \<noteq> NaN \<and> x = y)"

definition isInteger :: "real \<Rightarrow> bool" where
  "isInteger y = (of_int \<lfloor>y\<rfloor> = y)"

definition isOddInteger :: "real \<Rightarrow> bool" where
  "isOddInteger y = (isInteger y \<and> odd \<lfloor>y\<rfloor>)"

text \<open>\<open>Math.pow\<close>, with the case order of the language definition: a NaN exponent
  first, then a zero exponent (the result is 1 even for a NaN base), then the base.\<close>

definition powFinite :: "jsnum \<Rightarrow> real \<Rightarrow> jsnum" where
  "powFinite base y =
     (if y = 0 then Num 1
      else case base of
        NaN \<Rightarrow> NaN
      | PInf \<Rightarrow> if 0 < y then PInf else Num 0
      | NInf \<Rightarrow> if 0 < y then (if isOddInteger y then NInf else PInf) else Num 0
      | Num x \<Rightarrow>
          if x = 0 then (if 0 < y then Num 0 else PInf)
          else if x < 0 \<and> \<not> isInteger y then NaN
          else if 0 < x then Num (x powr y)
          else Num (x powi \<lfloor>y\<rfloor>))"

definition powInfinite :: "bool \<Rightarrow> jsnum \<Rightarrow> jsnum" where
  "powInfinite pos base =
     (case base of
        NaN \<Rightarrow> NaN
      | PInf \<Rightarrow> if pos then PInf else Num 0
      | NInf \<Rightarrow> if pos then PInf else Num 0
      | Num x \<Rightarrow>
          if x = 0 then (if pos then Num 0 else PInf)
          else if 1 < \<bar>x\<bar> then (if pos then PInf else Num 0)
          else if \<bar>x\<bar> = 1 then NaN
          else (if pos then Num 0 else PInf))"

fun Math_pow :: "jsnum \<Rightarrow> jsnum \<Rightarrow> jsnum" where
  "Math_pow base NaN = NaN"
| "Math_pow base (Num y) = powFinite base y"
| "Math_pow base PInf = powInfinite True base"
| "Math_pow base NInf = powInfinite False base"

fun Math_sqrt :: "jsnum \<Rightarrow> jsnum" where
  "Math_sqrt (Num x) = (if x < 0 then NaN else Num (sqrt x))"
| "Math_sqrt PInf = PInf"
| "Math_sqrt _ = NaN"

fun Math_exp :: "jsnum \<Rightarrow> jsnum" where
  "Math_exp NaN = NaN"
| "Math_exp NInf = Num 0"
| "Math_exp PInf = PInf"
| "Math_exp (Num x) = Num (exp x)"

fun Math_abs :: "jsnum \<Rightarrow> jsnum" where
  "Math_abs NaN = NaN"
| "Math_abs (Num x) = Num \<bar>x\<bar>"
| "Math_abs _ = PInf"

definition Math_max :: "jsnum \<Rightarrow> jsnum \<Rightarrow> jsnum" where
  "Math_max x y = (if x = NaN \<or> y = NaN then NaN else if x \<le> y then y else x)"

definition Math_min :: "jsnum \<Rightarrow> jsnum \<Rightarrow> jsnum" where
  "Math_min x y = (if x = NaN \<or> y = NaN then NaN else if x \<le> y then x else y)"

fun Math_cos :: "jsnum \<Rightarrow> jsnum" where
  "Math_cos (Num x) = Num (cos x)"
| "Math_cos _ = NaN"

fun Math_sin :: "jsnum \<Rightarrow> jsnum" where
  "Math_sin (Num x) = Num (sin x)"
| "Math_sin _ = NaN"

text \<open>\<open>Math.atan2(y, x)\<close>: the angle of the point \<open>(x, y)\<close> in \<open>(-\<pi>, \<pi>]\<close>.\<close>

definition atan2Finite :: "real \<Rightarrow> real \<Rightarrow> real" where
  "atan2Finite y x =
     (if 0 < x then arctan (y / x)
      else if x < 0 then (if 0 \<le> y then arctan (y / x) + pi else arctan (y / x) - pi)
      else if 0 < y then pi / 2
      else if y < 0 then - (pi / 2)
      else 0)"

fun Math_atan2 :: "jsnum \<Rightarrow> jsnum \<Rightarrow> jsnum" where
  "Math_atan2 NaN _ = NaN"
| "Math_atan2 _ NaN = NaN"
| "Math_atan2 (Num y) (Num x) = Num (atan2Finite y x)"
| "Math_atan2 (Num y) PInf = Num 0"
| "Math_atan2 (Num y) NInf = Num (if 0 \<le> y then pi else - pi)"
| "Math_atan2 PInf (Num x) = Num (pi / 2)"
| "Math_atan2 NInf (Num x) = Num (- (pi / 2))"
| "Math_atan2 PInf PInf = Num (pi / 4)"
| "Math_atan2 PInf NInf = Num (3 * pi / 4)"
| "Math_atan2 NInf PInf = Num (- (pi / 4))"
| "Math_atan2 NInf NInf = Num (- (3 * pi / 4))"

definition Math_PI :: jsnum where
  "Math_PI = Num pi"

definition isFinite :: "jsnum \<Rightarrow> bool" where
  "isFinite x = (case x of Num _ \<Rightarrow> True | _ \<Rightarrow> False)"

section \<open>The CIECAM02 module\<close>

subsection \<open>Types and errors\<close>

type_synonym Vec3 = "jsnum \<times> jsnum \<times> jsnum"

type_synonym Matrix3x3 = "Vec3 \<times> Vec3 \<times> Vec3"

datatype SurroundCondition = average | dim | dark

datatype CIECAM02Error = CIECAM02Error string

text \<open>
  \<open>Effect.try\<close> runs the \<open>try\<close> block and turns a thrown value into a failure through
  \<open>catch\<close>. A block that returns gives a success. The blocks of this module consist of
  number arithmetic, reads of array literals at constant indices and one exhaustive
  \<open>switch\<close>; none of these throws, so each block is a returned value.
\<close>

datatype thrown = Thrown

definition Effect_try :: "(unit \<Rightarrow> thrown + 'a) \<Rightarrow> (thrown \<Rightarrow> 'e) \<Rightarrow> 'e + 'a" where
  "Effect_try try catch = (case try () of Inl cause \<Rightarrow> Inl (catch cause) | Inr v \<Rightarrow> Inr v)"

subsection \<open>Constants\<close>

definition M_CAT02 :: Matrix3x3 where
  "M_CAT02 =
    ((Num 0.7328, Num 0.4296, Num (- 0.1624)),
     (Num (- 0.7036), Num 1.6975, Num 0.0061),
     (Num 0.0030, Num 0.0136, Num 0.9834))"

definition M_CAT02_INV :: Matrix3x3 where
  "M_CAT02_INV =
    ((Num 1.096124, Num (- 0.278869), Num 0.182745),
     (Num 0.454369, Num 0.473533, Num 0.072098),
     (Num (- 0.009628), Num (- 0.005698), Num 1.015326))"

definition M_HPE :: Matrix3x3 where
  "M_HPE =
    ((Num 0.38971, Num 0.68898, Num (- 0.07868)),
     (Num (- 0.22981), Num 1.18340, Num 0.04641),
     (Num 0.00000, Num 0.00000, Num 1.00000))"

definition M_HPE_INV :: Matrix3x3 where
  "M_HPE_INV =
    ((Num 1.910197, Num (- 1.112124), Num 0.201908),
     (Num 0.370950, Num 0.629054, Num (- 0.000008)),
     (Num 0.000000, Num 0.000000, Num 1.000000))"

definition DEG_TO_RAD :: jsnum where
  "DEG_TO_RAD = Math_PI / Num 180"

definition RAD_TO_DEG :: jsnum where
  "RAD_TO_DEG = Num 180 / Math_PI"

definition CONE_RESPONSE_EXPONENT :: jsnum where
  "CONE_RESPONSE_EXPONENT = Num 0.42"

definition CONE_RESPONSE_SCALE :: jsnum where
  "CONE_RESPONSE_SCALE = Num 400"

definition CONE_RESPONSE_OFFSET :: jsnum where
  "CONE_RESPONSE_OFFSET = Num 27.13"

definition POST_ADAPTATION_OFFSET :: jsnum where
  "POST_ADAPTATION_OFFSET = Num 0.1"

definition ECCENTRICITY_HUE_ANGLES :: "jsnum list" where
  "ECCENTRICITY_HUE_ANGLES = [Num 20.14, Num 90.00, Num 164.25, Num 237.53, Num 380.14]"

definition ECCENTRICITY_VALUES :: "jsnum list" where
  "ECCENTRICITY_VALUES = [Num 0.8, Num 0.7, Num 1.0, Num 1.2, Num 0.8]"

definition ECCENTRICITY_H_VALUES :: "jsnum list" where
  "ECCENTRICITY_H_VALUES = [Num 0.0, Num 100.0, Num 200.0, Num 300.0, Num 400.0]"

subsection \<open>Helpers\<close>

text \<open>Reading an array of numbers at an index: past the end JavaScript gives
  \<open>undefined\<close>, which every arithmetic operation turns into NaN.\<close>

definition arrayAt :: "jsnum list \<Rightarrow> nat \<Rightarrow> jsnum" where
  "arrayAt xs i = (if i < length xs then xs ! i else NaN)"

text \<open>\<open>Arr.range\<close> and \<open>Arr.findLastIndex\<close> of the Effect library: the integers from
  \<open>start\<close> to \<open>end\<close>, both included, and the last index whose element satisfies the
  predicate, searched from the end of the array.\<close>

definition Arr_range :: "nat \<Rightarrow> nat \<Rightarrow> nat list" where
  "Arr_range start end = (if start \<le> end then [start ..< Suc end] else [start])"

fun findLastIndexFrom :: "('a \<Rightarrow> bool) \<Rightarrow> 'a list \<Rightarrow> nat \<Rightarrow> nat option" where
  "findLastIndexFrom p xs 0 = None"
| "findLastIndexFrom p xs (Suc i) = (if p (xs ! i) then Some i else findLastIndexFrom p xs i)"

definition Arr_findLastIndex :: "('a \<Rightarrow> bool) \<Rightarrow> 'a list \<Rightarrow> nat option" where
  "Arr_findLastIndex p xs = findLastIndexFrom p xs (length xs)"

fun multiplyMatrixVec :: "Matrix3x3 \<Rightarrow> Vec3 \<Rightarrow> Vec3" where
  "multiplyMatrixVec ((m00, m01, m02), (m10, m11, m12), (m20, m21, m22)) (v0, v1, v2) =
     (m00 * v0 + m01 * v1 + m02 * v2,
      m10 * v0 + m11 * v1 + m12 * v2,
      m20 * v0 + m21 * v1 + m22 * v2)"

definition nonlinearAdaptation :: "jsnum \<Rightarrow> jsnum \<Rightarrow> jsnum" where
  "nonlinearAdaptation component Fl =
     (let sign = (if Num 0 \<le> component then Num 1 else Num (- 1));
          abs = Math_abs component;
          p = Math_pow (Fl * abs / Num 100) CONE_RESPONSE_EXPONENT
      in sign * (CONE_RESPONSE_SCALE * p) / (p + CONE_RESPONSE_OFFSET) + POST_ADAPTATION_OFFSET)"

definition inverseNonlinearAdaptation :: "jsnum \<Rightarrow> jsnum \<Rightarrow> jsnum" where
  "inverseNonlinearAdaptation adapted Fl =
     (let val = adapted - POST_ADAPTATION_OFFSET;
          sign = (if Num 0 \<le> val then Num 1 else Num (- 1));
          abs = Math_abs val;
          p = (CONE_RESPONSE_OFFSET * abs) / (CONE_RESPONSE_SCALE - abs)
      in sign * (Num 100 / Fl) * Math_pow p (Num 1 / CONE_RESPONSE_EXPONENT))"

definition eccentricityHp :: "jsnum \<Rightarrow> jsnum" where
  "eccentricityHp hue = (if hue < arrayAt ECCENTRICITY_HUE_ANGLES 0 then hue + Num 360 else hue)"

definition eccentricitySegmentIndex :: "jsnum \<Rightarrow> nat option" where
  "eccentricitySegmentIndex hp =
     Arr_findLastIndex (\<lambda>i. arrayAt ECCENTRICITY_HUE_ANGLES i \<le> hp) (Arr_range 0 3)"

definition eccentricityFactor :: "jsnum \<Rightarrow> jsnum" where
  "eccentricityFactor hue =
     (let hp = eccentricityHp hue;
          segmentIndex = eccentricitySegmentIndex hp;
          i = (case segmentIndex of Some value \<Rightarrow> value | None \<Rightarrow> 0);
          hi = arrayAt ECCENTRICITY_HUE_ANGLES i;
          ei = arrayAt ECCENTRICITY_VALUES i;
          Hi = arrayAt ECCENTRICITY_H_VALUES i;
          hiNext = arrayAt ECCENTRICITY_HUE_ANGLES (i + 1);
          eiNext = arrayAt ECCENTRICITY_VALUES (i + 1);
          HiNext = arrayAt ECCENTRICITY_H_VALUES (i + 1);
          t = (hp - hi) / ei;
          denominator = t + (hiNext - hp) / eiNext
      in if strictEq denominator (Num 0)
         then ei
         else (Hi + (Num 100 * t) / denominator) / Num 100 *
              ((eiNext * ei) /
               (eiNext * (hp - hi) / (HiNext - Hi) + ei * (hiNext - hp) / (HiNext - Hi))))"

subsection \<open>Records and the constants built from them\<close>

text \<open>The colour type of the compensation module, declared in \<open>color.schema\<close>. Its
  fields \<open>c\<close> and \<open>h\<close> are written \<open>OKLCHColor.c\<close> and \<open>OKLCHColor.h\<close> below, where
  the plain names are those of the CIECAM02 records.\<close>

record OKLCHColor =
  l :: jsnum
  c :: jsnum
  h :: jsnum
  alpha :: jsnum

record XYZ =
  X :: jsnum
  Y :: jsnum
  Z :: jsnum

record SurroundParameters =
  F :: jsnum
  c :: jsnum
  Nc :: jsnum

record ViewingConditions =
  La :: jsnum
  Yb :: jsnum
  surround :: SurroundParameters
  k :: jsnum
  Fl :: jsnum
  n :: jsnum
  Nbb :: jsnum
  Ncb :: jsnum
  z :: jsnum
  D :: jsnum
  Aw :: jsnum
  adaptedWhiteRgc :: Vec3

text \<open>\<open>inverse\<close> takes \<open>Pick<AppearanceCorrelates, "J" | "C" | "h">\<close>: the record of the
  first three fields, which \<open>AppearanceCorrelates\<close> extends.\<close>

record CorrelatesJCh =
  J :: jsnum
  C :: jsnum
  h :: jsnum

record AppearanceCorrelates = CorrelatesJCh +
  M :: jsnum
  s :: jsnum
  Q :: jsnum

definition SURROUND_AVERAGE :: SurroundParameters where
  "SURROUND_AVERAGE = \<lparr>F = Num 1.0, c = Num 0.69, Nc = Num 1.0\<rparr>"

definition SURROUND_DIM :: SurroundParameters where
  "SURROUND_DIM = \<lparr>F = Num 0.9, c = Num 0.59, Nc = Num 0.95\<rparr>"

definition SURROUND_DARK :: SurroundParameters where
  "SURROUND_DARK = \<lparr>F = Num 0.8, c = Num 0.525, Nc = Num 0.8\<rparr>"

definition D65_WHITE_POINT :: XYZ where
  "D65_WHITE_POINT = \<lparr>X = Num 95.047, Y = Num 100.0, Z = Num 108.883\<rparr>"

definition resolveSurround :: "SurroundCondition \<Rightarrow> SurroundParameters" where
  "resolveSurround condition =
     (case condition of
        average \<Rightarrow> SURROUND_AVERAGE
      | dim \<Rightarrow> SURROUND_DIM
      | dark \<Rightarrow> SURROUND_DARK)"

subsection \<open>Steps of the transforms\<close>

fun vec0 :: "Vec3 \<Rightarrow> jsnum" where "vec0 (v0, v1, v2) = v0"

fun vec1 :: "Vec3 \<Rightarrow> jsnum" where "vec1 (v0, v1, v2) = v1"

fun vec2 :: "Vec3 \<Rightarrow> jsnum" where "vec2 (v0, v1, v2) = v2"

text \<open>The opponent colour dimensions of forward step 4 and the linear solve of inverse
  step 5 are the expressions of the source, named so that they can be stated alone.\<close>

definition opponentA :: "jsnum \<Rightarrow> jsnum \<Rightarrow> jsnum \<Rightarrow> jsnum" where
  "opponentA Ra Ga Ba = Ra - Num 12 * Ga / Num 11 + Ba / Num 11"

definition opponentB :: "jsnum \<Rightarrow> jsnum \<Rightarrow> jsnum \<Rightarrow> jsnum" where
  "opponentB Ra Ga Ba = (Ra + Ga - Num 2 * Ba) / Num 9"

definition recoverRa :: "jsnum \<Rightarrow> jsnum \<Rightarrow> jsnum \<Rightarrow> jsnum" where
  "recoverRa p2 a b = (Num 460 * p2 + Num 451 * a + Num 288 * b) / Num 1403"

definition recoverGa :: "jsnum \<Rightarrow> jsnum \<Rightarrow> jsnum \<Rightarrow> jsnum" where
  "recoverGa p2 a b = (Num 460 * p2 - Num 891 * a - Num 261 * b) / Num 1403"

definition recoverBa :: "jsnum \<Rightarrow> jsnum \<Rightarrow> jsnum \<Rightarrow> jsnum" where
  "recoverBa p2 a b = (Num 460 * p2 - Num 220 * a - Num 6300 * b) / Num 1403"

subsection \<open>Public API\<close>

text \<open>Each function is \<open>Effect.try\<close> around a block; the block is defined first, as the
  value it returns.\<close>

definition makeViewingConditionsTry ::
  "jsnum \<Rightarrow> jsnum \<Rightarrow> XYZ \<Rightarrow> SurroundCondition \<Rightarrow> ViewingConditions" where
  "makeViewingConditionsTry = (\<lambda>La Yb whitePoint surround.
         (let surroundParams = resolveSurround surround;
              k = Num 1 / (Num 5 * La + Num 1);
              k4 = k * k * k * k;
              Fl = Num 0.2 * k4 * (Num 5 * La) +
                   Num 0.1 * Math_pow (Num 1 - k4) (Num 2) * Math_pow (Num 5 * La) (Num 1 / Num 3);
              n = Yb / Y whitePoint;
              Nbb = Num 0.725 * Math_pow (Num 1 / n) (Num 0.2);
              Ncb = Nbb;
              z = Num 1.48 + Math_sqrt n;
              D = F surroundParams * (Num 1 - (Num 1 / Num 3.6) * Math_exp ((- La - Num 42) / Num 92));
              Dclamp = Math_max (Num 0) (Math_min (Num 1) D);
              whiteRgb = multiplyMatrixVec M_CAT02 (X whitePoint, Y whitePoint, Z whitePoint);
              adaptedWhiteRgc =
                ((Dclamp * Y whitePoint / vec0 whiteRgb + Num 1 - Dclamp) * vec0 whiteRgb,
                 (Dclamp * Y whitePoint / vec1 whiteRgb + Num 1 - Dclamp) * vec1 whiteRgb,
                 (Dclamp * Y whitePoint / vec2 whiteRgb + Num 1 - Dclamp) * vec2 whiteRgb);
              whiteRgbHpe = multiplyMatrixVec M_HPE (multiplyMatrixVec M_CAT02_INV adaptedWhiteRgc);
              whiteRa = nonlinearAdaptation (vec0 whiteRgbHpe) Fl;
              whiteGa = nonlinearAdaptation (vec1 whiteRgbHpe) Fl;
              whiteBa = nonlinearAdaptation (vec2 whiteRgbHpe) Fl;
              Aw = (Num 2 * whiteRa + whiteGa + (Num 1 / Num 20) * whiteBa - Num 0.305) * Nbb
          in \<lparr>La = La, Yb = Yb, surround = surroundParams, k = k, Fl = Fl, n = n,
               Nbb = Nbb, Ncb = Ncb, z = z, D = Dclamp, Aw = Aw,
               adaptedWhiteRgc = adaptedWhiteRgc\<rparr>))"

definition makeViewingConditions ::
  "jsnum \<Rightarrow> jsnum \<Rightarrow> XYZ \<Rightarrow> SurroundCondition \<Rightarrow> CIECAM02Error + ViewingConditions" where
  "makeViewingConditions = (\<lambda>La Yb whitePoint surround.
     Effect_try
       (\<lambda>_. Inr (makeViewingConditionsTry La Yb whitePoint surround))
       (\<lambda>cause. CIECAM02Error ''Failed to compute viewing conditions''))"

definition forwardTry :: "XYZ \<Rightarrow> XYZ \<Rightarrow> ViewingConditions \<Rightarrow> AppearanceCorrelates" where
  "forwardTry xyz whitePoint conditions =
         (let rgb = multiplyMatrixVec M_CAT02 (X xyz, Y xyz, Z xyz);
              whiteRgb = multiplyMatrixVec M_CAT02 (X whitePoint, Y whitePoint, Z whitePoint);
              rgc =
                ((D conditions * Y whitePoint / vec0 whiteRgb + Num 1 - D conditions) * vec0 rgb,
                 (D conditions * Y whitePoint / vec1 whiteRgb + Num 1 - D conditions) * vec1 rgb,
                 (D conditions * Y whitePoint / vec2 whiteRgb + Num 1 - D conditions) * vec2 rgb);
              rgbHpe = multiplyMatrixVec M_HPE (multiplyMatrixVec M_CAT02_INV rgc);
              Ra = nonlinearAdaptation (vec0 rgbHpe) (Fl conditions);
              Ga = nonlinearAdaptation (vec1 rgbHpe) (Fl conditions);
              Ba = nonlinearAdaptation (vec2 rgbHpe) (Fl conditions);
              a = opponentA Ra Ga Ba;
              b = opponentB Ra Ga Ba;
              h0 = Math_atan2 b a * RAD_TO_DEG;
              h = (if h0 < Num 0 then h0 + Num 360 else h0);
              et = eccentricityFactor h;
              A = (Num 2 * Ra + Ga + (Num 1 / Num 20) * Ba - Num 0.305) * Nbb conditions;
              J = Num 100 * Math_pow (A / Aw conditions) (c (surround conditions) * z conditions);
              Q = (Num 4 / c (surround conditions)) * Math_pow (J / Num 100) (Num 0.5) *
                  (Aw conditions + Num 4) * Math_pow (Fl conditions) (Num 0.25);
              t = (Num 50000 / Num 13) * Nc (surround conditions) * Ncb conditions * et *
                  Math_sqrt (a * a + b * b) / (Ra + Ga + Num 21 * Ba / Num 20);
              C = Math_pow t (Num 0.9) * Math_pow (J / Num 100) (Num 0.5) *
                  (Num 1.64 - Math_pow (Num 0.29) (n conditions));
              M = C * Math_pow (Fl conditions) (Num 0.25);
              s = Num 100 * Math_pow (M / Q) (Num 0.5)
          in \<lparr>J = J, C = C, h = h, M = M, s = s, Q = Q\<rparr>)"

definition forward :: "XYZ \<Rightarrow> XYZ \<Rightarrow> ViewingConditions \<Rightarrow> CIECAM02Error + AppearanceCorrelates" where
  "forward xyz whitePoint conditions =
     Effect_try
       (\<lambda>_. Inr (forwardTry xyz whitePoint conditions))
       (\<lambda>cause. CIECAM02Error ''Forward CIECAM02 transform failed'')"

definition inverseTry :: "CorrelatesJCh \<Rightarrow> XYZ \<Rightarrow> ViewingConditions \<Rightarrow> XYZ" where
  "inverseTry correlates whitePoint conditions =
         (let A = Aw conditions *
                  Math_pow (J correlates / Num 100) (Num 1 / (c (surround conditions) * z conditions));
              t = Math_pow
                    (C correlates /
                     (Math_pow (J correlates / Num 100) (Num 0.5) *
                      (Num 1.64 - Math_pow (Num 0.29) (n conditions))))
                    (Num 1 / Num 0.9);
              et = eccentricityFactor (h correlates);
              hRad = h correlates * DEG_TO_RAD;
              cosH = Math_cos hRad;
              sinH = Math_sin hRad;
              p1 = (Num 50000 / Num 13) * Nc (surround conditions) * Ncb conditions * et;
              p2 = A / Nbb conditions + Num 0.305;
              gamma = Num 23 * (p2 + Num 0.305) * t /
                      (Num 23 * p1 + Num 11 * t * cosH + Num 108 * t * sinH);
              a = gamma * cosH;
              b = gamma * sinH;
              Ra = recoverRa p2 a b;
              Ga = recoverGa p2 a b;
              Ba = recoverBa p2 a b;
              rgbHpe =
                (inverseNonlinearAdaptation Ra (Fl conditions),
                 inverseNonlinearAdaptation Ga (Fl conditions),
                 inverseNonlinearAdaptation Ba (Fl conditions));
              rgc = multiplyMatrixVec M_CAT02 (multiplyMatrixVec M_HPE_INV rgbHpe);
              whiteRgb = multiplyMatrixVec M_CAT02 (X whitePoint, Y whitePoint, Z whitePoint);
              rgb =
                (vec0 rgc / (D conditions * Y whitePoint / vec0 whiteRgb + Num 1 - D conditions),
                 vec1 rgc / (D conditions * Y whitePoint / vec1 whiteRgb + Num 1 - D conditions),
                 vec2 rgc / (D conditions * Y whitePoint / vec2 whiteRgb + Num 1 - D conditions));
              xyzVec = multiplyMatrixVec M_CAT02_INV rgb
          in \<lparr>X = vec0 xyzVec, Y = vec1 xyzVec, Z = vec2 xyzVec\<rparr>)"

definition inverse_transform ::
  "CorrelatesJCh \<Rightarrow> XYZ \<Rightarrow> ViewingConditions \<Rightarrow> CIECAM02Error + XYZ" where
  "inverse_transform correlates whitePoint conditions =
     Effect_try
       (\<lambda>_. Inr (inverseTry correlates whitePoint conditions))
       (\<lambda>cause. CIECAM02Error ''Inverse CIECAM02 transform failed'')"

section \<open>The contrast compensation module\<close>













section \<open>Intermediate values of the transforms\<close>

text \<open>
  The values that the blocks of \<open>makeViewingConditions\<close> and \<open>forward\<close> compute on the
  way, as functions of their inputs: the adapted cone responses (forward step 1), the
  compressed responses \<open>(Ra, Ga, Ba)\<close> (steps 2 and 3), the hue angle (steps 4 and 5), the
  achromatic response (step 7), lightness, brightness and chroma (steps 8 to 10). The
  lemmas \<open>forwardTry_J\<close> to \<open>forwardTry_s\<close> and \<open>makeViewingConditionsTry_Aw\<close> show that the
  blocks compute exactly these.
\<close>

definition adaptedCones :: "jsnum \<Rightarrow> XYZ \<Rightarrow> Vec3 \<Rightarrow> Vec3" where
  "adaptedCones d whitePoint rgb =
     (let whiteRgb = multiplyMatrixVec M_CAT02 (X whitePoint, Y whitePoint, Z whitePoint)
      in ((d * Y whitePoint / vec0 whiteRgb + Num 1 - d) * vec0 rgb,
          (d * Y whitePoint / vec1 whiteRgb + Num 1 - d) * vec1 rgb,
          (d * Y whitePoint / vec2 whiteRgb + Num 1 - d) * vec2 rgb))"

definition coneResponses :: "Vec3 \<Rightarrow> jsnum \<Rightarrow> Vec3" where
  "coneResponses rgc fl =
     (let rgbHpe = multiplyMatrixVec M_HPE (multiplyMatrixVec M_CAT02_INV rgc)
      in (nonlinearAdaptation (vec0 rgbHpe) fl,
          nonlinearAdaptation (vec1 rgbHpe) fl,
          nonlinearAdaptation (vec2 rgbHpe) fl))"

definition achromatic :: "Vec3 \<Rightarrow> jsnum \<Rightarrow> jsnum" where
  "achromatic r nbb =
     (Num 2 * vec0 r + vec1 r + (Num 1 / Num 20) * vec2 r - Num 0.305) * nbb"

definition hueAngle :: "Vec3 \<Rightarrow> jsnum" where
  "hueAngle r =
     (let a = opponentA (vec0 r) (vec1 r) (vec2 r);
          b = opponentB (vec0 r) (vec1 r) (vec2 r);
          h0 = Math_atan2 b a * RAD_TO_DEG
      in if h0 < Num 0 then h0 + Num 360 else h0)"

definition lightness :: "jsnum \<Rightarrow> ViewingConditions \<Rightarrow> jsnum" where
  "lightness A conditions =
     Num 100 * Math_pow (A / Aw conditions) (c (surround conditions) * z conditions)"

definition brightness :: "jsnum \<Rightarrow> ViewingConditions \<Rightarrow> jsnum" where
  "brightness j conditions =
     (Num 4 / c (surround conditions)) * Math_pow (j / Num 100) (Num 0.5) *
     (Aw conditions + Num 4) * Math_pow (Fl conditions) (Num 0.25)"

definition chromaT :: "Vec3 \<Rightarrow> ViewingConditions \<Rightarrow> jsnum" where
  "chromaT r conditions =
     (let a = opponentA (vec0 r) (vec1 r) (vec2 r);
          b = opponentB (vec0 r) (vec1 r) (vec2 r)
      in (Num 50000 / Num 13) * Nc (surround conditions) * Ncb conditions *
         eccentricityFactor (hueAngle r) *
         Math_sqrt (a * a + b * b) / (vec0 r + vec1 r + Num 21 * vec2 r / Num 20))"

definition chroma :: "jsnum \<Rightarrow> jsnum \<Rightarrow> ViewingConditions \<Rightarrow> jsnum" where
  "chroma t j conditions =
     Math_pow t (Num 0.9) * Math_pow (j / Num 100) (Num 0.5) *
     (Num 1.64 - Math_pow (Num 0.29) (n conditions))"

definition forwardResponses :: "XYZ \<Rightarrow> XYZ \<Rightarrow> ViewingConditions \<Rightarrow> Vec3" where
  "forwardResponses xyz whitePoint conditions =
     coneResponses
       (adaptedCones (D conditions) whitePoint (multiplyMatrixVec M_CAT02 (X xyz, Y xyz, Z xyz)))
       (Fl conditions)"

text \<open>
  The values that the block of \<open>inverse\<close> computes on the way, as functions of the
  correlates and the viewing conditions: the achromatic response \<open>A\<close> (inverse step 1),
  \<open>t\<close> (step 2), \<open>p2\<close> and \<open>gamma\<close> (step 4) and the recovered responses \<open>(Ra, Ga, Ba)\<close>
  (step 5). The lemma \<open>inverseTry_responses\<close> shows that the block computes exactly these.
\<close>

definition inverseAchromatic :: "CorrelatesJCh \<Rightarrow> ViewingConditions \<Rightarrow> jsnum" where
  "inverseAchromatic correlates conditions =
     Aw conditions *
     Math_pow (J correlates / Num 100) (Num 1 / (c (surround conditions) * z conditions))"

definition inverseT :: "CorrelatesJCh \<Rightarrow> ViewingConditions \<Rightarrow> jsnum" where
  "inverseT correlates conditions =
     Math_pow
       (C correlates /
        (Math_pow (J correlates / Num 100) (Num 0.5) *
         (Num 1.64 - Math_pow (Num 0.29) (n conditions))))
       (Num 1 / Num 0.9)"

definition inverseP2 :: "CorrelatesJCh \<Rightarrow> ViewingConditions \<Rightarrow> jsnum" where
  "inverseP2 correlates conditions =
     inverseAchromatic correlates conditions / Nbb conditions + Num 0.305"

definition inverseGamma :: "CorrelatesJCh \<Rightarrow> ViewingConditions \<Rightarrow> jsnum" where
  "inverseGamma correlates conditions =
     (let t = inverseT correlates conditions;
          et = eccentricityFactor (h correlates);
          hRad = h correlates * DEG_TO_RAD;
          cosH = Math_cos hRad;
          sinH = Math_sin hRad;
          p1 = (Num 50000 / Num 13) * Nc (surround conditions) * Ncb conditions * et;
          p2 = inverseP2 correlates conditions
      in Num 23 * (p2 + Num 0.305) * t /
         (Num 23 * p1 + Num 11 * t * cosH + Num 108 * t * sinH))"

definition inverseResponses :: "CorrelatesJCh \<Rightarrow> ViewingConditions \<Rightarrow> Vec3" where
  "inverseResponses correlates conditions =
     (let hRad = h correlates * DEG_TO_RAD;
          p2 = inverseP2 correlates conditions;
          gamma = inverseGamma correlates conditions;
          a = gamma * Math_cos hRad;
          b = gamma * Math_sin hRad
      in (recoverRa p2 a b, recoverGa p2 a b, recoverBa p2 a b))"

text \<open>
  The same values on finite inputs, as real numbers: the luminance adaptation factor \<open>Fl\<close>
  of a positive \<open>La\<close>, the clamped degree of adaptation \<open>D\<close>, the compression of a
  non-negative cone response (\<open>nonlinearAdaptation\<close>) and its inverse on a response above
  0.1 (\<open>inverseNonlinearAdaptation\<close>), and the three parameters of each surround.
\<close>

definition luminanceFactor :: "real \<Rightarrow> real" where
  "luminanceFactor la =
     (let k = 1 / (5 * la + 1); k4 = k * k * k * k
      in 0.2 * k4 * (5 * la) + 0.1 * (1 - k4) powr 2 * (5 * la) powr (1 / 3))"

definition adaptationDegree :: "real \<Rightarrow> real \<Rightarrow> real" where
  "adaptationDegree f la = max 0 (min 1 (f * (1 - (1 / 3.6) * exp ((- la - 42) / 92))))"

definition compress :: "real \<Rightarrow> real \<Rightarrow> real" where
  "compress v fl = (let p = (fl * v / 100) powr 0.42 in 400 * p / (p + 27.13) + 0.1)"

definition decompress :: "real \<Rightarrow> real \<Rightarrow> real" where
  "decompress r fl = 100 / fl * (27.13 * (r - 0.1) / (400 - (r - 0.1))) powr (1 / 0.42)"

definition surroundF :: "SurroundCondition \<Rightarrow> real" where
  "surroundF sur = (case sur of average \<Rightarrow> 1 | dim \<Rightarrow> 0.9 | dark \<Rightarrow> 0.8)"

definition surroundC :: "SurroundCondition \<Rightarrow> real" where
  "surroundC sur = (case sur of average \<Rightarrow> 0.69 | dim \<Rightarrow> 0.59 | dark \<Rightarrow> 0.525)"

definition surroundNc :: "SurroundCondition \<Rightarrow> real" where
  "surroundNc sur = (case sur of average \<Rightarrow> 1 | dim \<Rightarrow> 0.95 | dark \<Rightarrow> 0.8)"

text \<open>Viewing conditions written by hand, with \<open>Fl = 0\<close>: a value of the exported
  interface that \<open>forward\<close> accepts.\<close>

definition zeroFlConditions :: ViewingConditions where
  "zeroFlConditions =
     \<lparr>La = Num 0, Yb = Num 20, surround = SURROUND_AVERAGE, k = Num 1, Fl = Num 0, n = Num 0.2,
      Nbb = Num 1, Ncb = Num 1, z = Num 2, D = Num 1, Aw = Num 1,
      adaptedWhiteRgc = (Num 100, Num 100, Num 100)\<rparr>"

section \<open>Basic facts about the number model and the effects\<close>

lemma Num_minus [simp]: "Num x - Num y = Num (x - y)"
  by (simp add: minus_jsnum_def)

lemma plus_NaN_right [simp]: "x + NaN = (NaN::jsnum)"
  by (cases x) simp_all

lemma times_NaN_right [simp]: "x * NaN = (NaN::jsnum)"
  by (cases x) simp_all

lemma divide_NaN_right [simp]: "x / NaN = (NaN::jsnum)"
  by (cases x) simp_all

lemma minus_NaN_right [simp]: "x - NaN = (NaN::jsnum)"
  by (simp add: minus_jsnum_def)

lemma minus_NaN_left [simp]: "NaN - x = (NaN::jsnum)"
  by (simp add: minus_jsnum_def)

lemma Effect_try_returns [simp]: "Effect_try (\<lambda>_. Inr v) catch = Inr v"
  by (simp add: Effect_try_def)

lemma makeViewingConditions_Inr:
  "makeViewingConditions la yb wp sur = Inr (makeViewingConditionsTry la yb wp sur)"
  by (simp add: makeViewingConditions_def)

lemma forward_Inr: "forward xyz wp cond = Inr (forwardTry xyz wp cond)"
  by (simp add: forward_def)

lemma inverse_transform_Inr:
  "inverse_transform jch wp cond = Inr (inverseTry jch wp cond)"
  by (simp add: inverse_transform_def)

lemma arrayAt_Nil [simp]: "arrayAt [] i = NaN"
  by (simp add: arrayAt_def)

lemma arrayAt_Cons_0 [simp]: "arrayAt (x # xs) 0 = x"
  by (simp add: arrayAt_def)

lemma arrayAt_Cons_Suc [simp]: "arrayAt (x # xs) (Suc i) = arrayAt xs i"
  by (simp add: arrayAt_def)

lemma arrayAt_Cons_numeral [simp]: "arrayAt (x # xs) (numeral v) = arrayAt xs (pred_numeral v)"
  by (simp add: numeral_eq_Suc)

lemma powFinite_NaN [simp]: "y \<noteq> 0 \<Longrightarrow> powFinite NaN y = NaN"
  by (simp add: powFinite_def)

lemma powFinite_pos [simp]: "0 < x \<Longrightarrow> powFinite (Num x) y = Num (x powr y)"
  by (simp add: powFinite_def)

lemma powFinite_zero [simp]: "0 < y \<Longrightarrow> powFinite (Num 0) y = Num 0"
  by (simp add: powFinite_def)

lemma multiplyMatrixVec_NaN [simp]: "multiplyMatrixVec m (NaN, NaN, NaN) = (NaN, NaN, NaN)"
  by (cases "(m, (NaN, NaN, NaN))" rule: multiplyMatrixVec.cases) auto

lemma nonlinearAdaptation_NaN [simp]: "nonlinearAdaptation NaN fl = NaN"
  by (simp add: nonlinearAdaptation_def Let_def CONE_RESPONSE_EXPONENT_def)

lemma inverseNonlinearAdaptation_NaN [simp]: "inverseNonlinearAdaptation NaN fl = NaN"
  by (simp add: inverseNonlinearAdaptation_def Let_def CONE_RESPONSE_EXPONENT_def
      POST_ADAPTATION_OFFSET_def)

lemma zero_over_zero [simp]: "d * Num 0 / Num 0 = NaN"
  by (cases d) (simp_all add: signedInf_def)

subsection \<open>The blocks compute the intermediate values\<close>

lemma forwardTry_J:
  "J (forwardTry xyz wp cond) =
     lightness (achromatic (forwardResponses xyz wp cond) (Nbb cond)) cond"
  by (simp add: forwardTry_def forwardResponses_def coneResponses_def adaptedCones_def
      achromatic_def lightness_def Let_def)

lemma forwardTry_h:
  "h (forwardTry xyz wp cond) = hueAngle (forwardResponses xyz wp cond)"
  by (simp add: forwardTry_def forwardResponses_def coneResponses_def adaptedCones_def
      hueAngle_def Let_def)

lemma forwardTry_Q:
  "Q (forwardTry xyz wp cond) = brightness (J (forwardTry xyz wp cond)) cond"
  by (simp add: forwardTry_def brightness_def Let_def)

lemma forwardTry_C:
  "C (forwardTry xyz wp cond) =
     chroma (chromaT (forwardResponses xyz wp cond) cond) (J (forwardTry xyz wp cond)) cond"
  by (simp add: forwardTry_def forwardResponses_def coneResponses_def adaptedCones_def
      hueAngle_def chroma_def chromaT_def Let_def)

lemma forwardTry_M:
  "M (forwardTry xyz wp cond) = C (forwardTry xyz wp cond) * Math_pow (Fl cond) (Num 0.25)"
  by (simp add: forwardTry_def Let_def)

lemma forwardTry_s:
  "s (forwardTry xyz wp cond) =
     Num 100 * Math_pow (M (forwardTry xyz wp cond) / Q (forwardTry xyz wp cond)) (Num 0.5)"
  by (simp add: forwardTry_def Let_def)

lemma makeViewingConditionsTry_Aw:
  "Aw (makeViewingConditionsTry la yb wp sur) =
     achromatic
       (coneResponses
          (adaptedCones (D (makeViewingConditionsTry la yb wp sur)) wp
             (multiplyMatrixVec M_CAT02 (X wp, Y wp, Z wp)))
          (Fl (makeViewingConditionsTry la yb wp sur)))
       (Nbb (makeViewingConditionsTry la yb wp sur))"
  by (simp add: makeViewingConditionsTry_def coneResponses_def adaptedCones_def
      achromatic_def Let_def)

lemma makeViewingConditionsTry_fields:
  "n (makeViewingConditionsTry la yb wp sur) = yb / Y wp"
  "Nbb (makeViewingConditionsTry la yb wp sur) = Num 0.725 * Math_pow (Num 1 / (yb / Y wp)) (Num 0.2)"
  "Ncb (makeViewingConditionsTry la yb wp sur) = Nbb (makeViewingConditionsTry la yb wp sur)"
  "z (makeViewingConditionsTry la yb wp sur) = Num 1.48 + Math_sqrt (yb / Y wp)"
  "D (makeViewingConditionsTry la yb wp sur) =
     Math_max (Num 0) (Math_min (Num 1)
       (F (resolveSurround sur) * (Num 1 - (Num 1 / Num 3.6) * Math_exp ((- la - Num 42) / Num 92))))"
  "surround (makeViewingConditionsTry la yb wp sur) = resolveSurround sur"
  "Fl (makeViewingConditionsTry la yb wp sur) =
     (let k = Num 1 / (Num 5 * la + Num 1); k4 = k * k * k * k in
      Num 0.2 * k4 * (Num 5 * la) +
      Num 0.1 * Math_pow (Num 1 - k4) (Num 2) * Math_pow (Num 5 * la) (Num 1 / Num 3))"
  by (simp_all add: makeViewingConditionsTry_def Let_def)

section \<open>The linear solve of the inverse transform\<close>

text \<open>
  Claim C6. The three lines of the inverse transform that recover the post-adaptation cone
  responses undo the forward definitions exactly: for all real \<open>Ra\<close>, \<open>Ga\<close>, \<open>Ba\<close>, with
  \<open>p2 = 2 Ra + Ga + Ba / 20\<close> and the opponent dimensions \<open>a\<close> and \<open>b\<close> of the forward
  transform, the three quotients over 1403 are \<open>Ra\<close>, \<open>Ga\<close> and \<open>Ba\<close> again.
\<close>

theorem inverse_linear_solve_recovers_cone_responses:
  fixes ra ga ba :: real
  shows "recoverRa (Num 2 * Num ra + Num ga + Num ba / Num 20)
           (opponentA (Num ra) (Num ga) (Num ba)) (opponentB (Num ra) (Num ga) (Num ba)) = Num ra
       \<and> recoverGa (Num 2 * Num ra + Num ga + Num ba / Num 20)
           (opponentA (Num ra) (Num ga) (Num ba)) (opponentB (Num ra) (Num ga) (Num ba)) = Num ga
       \<and> recoverBa (Num 2 * Num ra + Num ga + Num ba / Num 20)
           (opponentA (Num ra) (Num ga) (Num ba)) (opponentB (Num ra) (Num ga) (Num ba)) = Num ba"
  by (simp add: recoverRa_def recoverGa_def recoverBa_def opponentA_def opponentB_def field_simps)

section \<open>The eccentricity lookup\<close>

lemma Arr_range_0_3: "Arr_range 0 3 = [0, Suc 0, Suc (Suc 0), Suc (Suc (Suc 0))]"
  by (simp add: Arr_range_def upt_rec numeral_eq_Suc)

lemma segmentIndex_Num:
  "eccentricitySegmentIndex (Num hp) =
     (if 237.53 \<le> hp then Some 3 else if 164.25 \<le> hp then Some 2
      else if 90 \<le> hp then Some 1 else if 20.14 \<le> hp then Some 0 else None)"
  unfolding eccentricitySegmentIndex_def Arr_findLastIndex_def Arr_range_0_3
  by (simp add: ECCENTRICITY_HUE_ANGLES_def numeral_3_eq_3 numeral_2_eq_2)

lemma hp_Num:
  "eccentricityHp (Num hue) = (if hue < 20.14 then Num (hue + 360) else Num hue)"
  by (simp add: eccentricityHp_def ECCENTRICITY_HUE_ANGLES_def)

lemma eccentricityFactor_finite_hp:
  assumes hp: "eccentricityHp hue = Num hp" and lo: "20.14 \<le> hp" and hi: "hp < 380.14"
  shows "isFinite (eccentricityFactor hue)"
proof -
  consider "hp < 90" | "90 \<le> hp" "hp < 164.25" | "164.25 \<le> hp" "hp < 237.53" | "237.53 \<le> hp"
    by linarith
  then show ?thesis
  proof cases
    case 1
    have "(hp - 20.14) / 0.8 + (90 - hp) / 0.7 \<noteq> 0"
      and "0.7 * (hp - 20.14) / 100 + 0.8 * (90 - hp) / 100 \<noteq> 0"
      using 1 lo by (simp_all add: field_simps)
    with 1 lo hp show ?thesis
      by (simp add: eccentricityFactor_def segmentIndex_Num Let_def strictEq_def isFinite_def
          ECCENTRICITY_HUE_ANGLES_def ECCENTRICITY_VALUES_def ECCENTRICITY_H_VALUES_def)
  next
    case 2
    have "(hp - 90) / 0.7 + (164.25 - hp) / 1 \<noteq> 0"
      and "1 * (hp - 90) / 100 + 0.7 * (164.25 - hp) / 100 \<noteq> 0"
      using 2 by (simp_all add: field_simps)
    with 2 hp show ?thesis
      by (simp add: eccentricityFactor_def segmentIndex_Num Let_def strictEq_def isFinite_def
          ECCENTRICITY_HUE_ANGLES_def ECCENTRICITY_VALUES_def ECCENTRICITY_H_VALUES_def)
  next
    case 3
    have "(hp - 164.25) / 1 + (237.53 - hp) / 1.2 \<noteq> 0"
      and "1.2 * (hp - 164.25) / 100 + 1 * (237.53 - hp) / 100 \<noteq> 0"
      using 3 by (simp_all add: field_simps)
    with 3 hp show ?thesis
      by (simp add: eccentricityFactor_def segmentIndex_Num Let_def strictEq_def isFinite_def
          ECCENTRICITY_HUE_ANGLES_def ECCENTRICITY_VALUES_def ECCENTRICITY_H_VALUES_def)
  next
    case 4
    have "(hp - 237.53) / 1.2 + (380.14 - hp) / 0.8 \<noteq> 0"
      and "0.8 * (hp - 237.53) / 100 + 1.2 * (380.14 - hp) / 100 \<noteq> 0"
      using 4 hi by (simp_all add: field_simps)
    with 4 hp show ?thesis
      by (simp add: eccentricityFactor_def segmentIndex_Num Let_def strictEq_def isFinite_def
          ECCENTRICITY_HUE_ANGLES_def ECCENTRICITY_VALUES_def ECCENTRICITY_H_VALUES_def)
  qed
qed

lemma segmentIndex_le_3: "(case eccentricitySegmentIndex hp of Some v \<Rightarrow> v | None \<Rightarrow> 0) \<le> 3"
  unfolding eccentricitySegmentIndex_def Arr_findLastIndex_def Arr_range_0_3
  by (simp add: numeral_3_eq_3)

lemma isFinite_values:
  assumes "i \<le> 3"
  shows "isFinite (arrayAt ECCENTRICITY_VALUES i)"
proof -
  from assms consider "i = 0" | "i = 1" | "i = 2" | "i = 3" by linarith
  then show ?thesis
    by cases (simp_all add: ECCENTRICITY_VALUES_def isFinite_def)
qed

text \<open>
  Claim C10. For every hue angle \<open>h\<close> with \<open>0 \<le> h < 360\<close> the wrapped hue \<open>hp\<close> (\<open>h + 360\<close>
  when \<open>h < 20.14\<close>, else \<open>h\<close>) lies in \<open>[20.14, 380.14)\<close>, the segment search finds an
  index \<open>i\<close> among 0, 1, 2, 3, so that \<open>i\<close> and \<open>i + 1\<close> are inside the three five-entry
  tables, and the eccentricity factor is a finite number. For any argument at all, when the
  interpolation denominator is exactly zero the function returns the table value \<open>ei\<close> of
  the segment, which is finite.
\<close>

theorem eccentricity_lookup_total_in_bounds:
  fixes hue :: real
  assumes "0 \<le> hue" and "hue < 360"
  shows "(\<exists>hp i. eccentricityHp (Num hue) = Num hp \<and> 20.14 \<le> hp \<and> hp < 380.14
           \<and> hp = (if hue < 20.14 then hue + 360 else hue)
           \<and> eccentricitySegmentIndex (Num hp) = Some i \<and> i \<in> {0, 1, 2, 3}
           \<and> i + 1 < length ECCENTRICITY_HUE_ANGLES
           \<and> i + 1 < length ECCENTRICITY_VALUES
           \<and> i + 1 < length ECCENTRICITY_H_VALUES
           \<and> isFinite (eccentricityFactor (Num hue)))
    \<and> (\<forall>g. (let hp = eccentricityHp g;
                 i = (case eccentricitySegmentIndex hp of Some v \<Rightarrow> v | None \<Rightarrow> 0)
             in strictEq ((hp - arrayAt ECCENTRICITY_HUE_ANGLES i) / arrayAt ECCENTRICITY_VALUES i +
                          (arrayAt ECCENTRICITY_HUE_ANGLES (i + 1) - hp) /
                            arrayAt ECCENTRICITY_VALUES (i + 1)) (Num 0)
                \<longrightarrow> eccentricityFactor g = arrayAt ECCENTRICITY_VALUES i
                    \<and> isFinite (eccentricityFactor g)))"
proof (rule conjI)
  define hp where "hp = (if hue < 20.14 then hue + 360 else hue)"
  have hpN: "eccentricityHp (Num hue) = Num hp"
    by (simp add: hp_Num hp_def)
  have lo: "20.14 \<le> hp" and hi: "hp < 380.14"
    using assms by (auto simp: hp_def)
  have fin: "isFinite (eccentricityFactor (Num hue))"
    by (rule eccentricityFactor_finite_hp[OF hpN lo hi])
  have "\<exists>i. eccentricitySegmentIndex (Num hp) = Some i \<and> i \<in> {0, 1, 2, 3}"
    using lo by (simp add: segmentIndex_Num)
  then obtain i where i: "eccentricitySegmentIndex (Num hp) = Some i" "i \<in> {0, 1, 2, 3}"
    by blast
  have len: "i + 1 < length ECCENTRICITY_HUE_ANGLES" "i + 1 < length ECCENTRICITY_VALUES"
    "i + 1 < length ECCENTRICITY_H_VALUES"
    using i(2)
    by (auto simp: ECCENTRICITY_HUE_ANGLES_def ECCENTRICITY_VALUES_def ECCENTRICITY_H_VALUES_def)
  show "\<exists>hp i. eccentricityHp (Num hue) = Num hp \<and> 20.14 \<le> hp \<and> hp < 380.14
           \<and> hp = (if hue < 20.14 then hue + 360 else hue)
           \<and> eccentricitySegmentIndex (Num hp) = Some i \<and> i \<in> {0, 1, 2, 3}
           \<and> i + 1 < length ECCENTRICITY_HUE_ANGLES
           \<and> i + 1 < length ECCENTRICITY_VALUES
           \<and> i + 1 < length ECCENTRICITY_H_VALUES
           \<and> isFinite (eccentricityFactor (Num hue))"
    using hpN lo hi i len fin hp_def by blast
next
  show "\<forall>g. (let hp = eccentricityHp g;
                 i = (case eccentricitySegmentIndex hp of Some v \<Rightarrow> v | None \<Rightarrow> 0)
             in strictEq ((hp - arrayAt ECCENTRICITY_HUE_ANGLES i) / arrayAt ECCENTRICITY_VALUES i +
                          (arrayAt ECCENTRICITY_HUE_ANGLES (i + 1) - hp) /
                            arrayAt ECCENTRICITY_VALUES (i + 1)) (Num 0)
                \<longrightarrow> eccentricityFactor g = arrayAt ECCENTRICITY_VALUES i
                    \<and> isFinite (eccentricityFactor g))"
    using isFinite_values[OF segmentIndex_le_3]
    by (simp add: eccentricityFactor_def Let_def)
qed

theorem eccentricity_lookup_total_in_bounds_witness:
  "(0::real) \<le> 100 \<and> (100::real) < 360
   \<and> eccentricityHp (Num 100) = Num 100
   \<and> eccentricitySegmentIndex (Num 100) = Some 1
   \<and> isFinite (eccentricityFactor (Num 100))
   \<and> eccentricityHp (Num 10) = Num 370
   \<and> eccentricitySegmentIndex (Num 370) = Some 3
   \<and> isFinite (eccentricityFactor (Num 10))
   \<and> strictEq ((Num 665.36 - Num 237.53) / Num 1.2 + (Num 380.14 - Num 665.36) / Num 0.8) (Num 0)
   \<and> eccentricityFactor (Num 665.36) = Num 1.2"
proof -
  have a: "(0::real) \<le> 100" "(100::real) < 360" "(0::real) \<le> 10" "(10::real) < 360"
    by simp_all
  have z: "strictEq ((Num 665.36 - Num 237.53) / Num 1.2 + (Num 380.14 - Num 665.36) / Num 0.8)
             (Num 0)"
    by (simp add: strictEq_def)
  have i3: "eccentricityHp (Num 665.36) = Num 665.36"
    "eccentricitySegmentIndex (Num 665.36) = Some 3"
    by (simp_all add: hp_Num segmentIndex_Num)
  from eccentricity_lookup_total_in_bounds[OF a(1,2)]
  have f100: "isFinite (eccentricityFactor (Num 100))" by blast
  from eccentricity_lookup_total_in_bounds[OF a(3,4)]
  have f10: "isFinite (eccentricityFactor (Num 10))" by blast
  from eccentricity_lookup_total_in_bounds[OF a(1,2)]
  have "\<forall>g. (let hp = eccentricityHp g;
                 i = (case eccentricitySegmentIndex hp of Some v \<Rightarrow> v | None \<Rightarrow> 0)
             in strictEq ((hp - arrayAt ECCENTRICITY_HUE_ANGLES i) / arrayAt ECCENTRICITY_VALUES i +
                          (arrayAt ECCENTRICITY_HUE_ANGLES (i + 1) - hp) /
                            arrayAt ECCENTRICITY_VALUES (i + 1)) (Num 0)
                \<longrightarrow> eccentricityFactor g = arrayAt ECCENTRICITY_VALUES i
                    \<and> isFinite (eccentricityFactor g))"
    by blast
  then have "(let hp = eccentricityHp (Num 665.36);
                 i = (case eccentricitySegmentIndex hp of Some v \<Rightarrow> v | None \<Rightarrow> 0)
             in strictEq ((hp - arrayAt ECCENTRICITY_HUE_ANGLES i) / arrayAt ECCENTRICITY_VALUES i +
                          (arrayAt ECCENTRICITY_HUE_ANGLES (i + 1) - hp) /
                            arrayAt ECCENTRICITY_VALUES (i + 1)) (Num 0)
                \<longrightarrow> eccentricityFactor (Num 665.36) = arrayAt ECCENTRICITY_VALUES i
                    \<and> isFinite (eccentricityFactor (Num 665.36)))"
    by (rule spec)
  with z have e: "eccentricityFactor (Num 665.36) = Num 1.2"
    unfolding i3 Let_def
    by (simp add: ECCENTRICITY_HUE_ANGLES_def ECCENTRICITY_VALUES_def)
  show ?thesis
    using a z e f100 f10 by (simp add: hp_Num segmentIndex_Num)
qed

section \<open>Batch compensation\<close>







section \<open>Viewing conditions\<close>

text \<open>
  Claim C2, as amended. \<open>makeViewingConditions\<close> never fails: its block validates nothing
  and nothing in it throws, so every input gives a success value, also a non-positive
  \<open>La\<close>, \<open>Yb\<close> or \<open>whitePoint.Y\<close>. Then derived fields are degenerate: \<open>La = 0\<close> gives
  \<open>Fl = 0\<close>, \<open>Yb = 0\<close> under a white point of luminance 100 gives \<open>Nbb = +Infinity\<close>, and
  \<open>whitePoint.Y = 0\<close> with \<open>Yb = 20\<close> gives \<open>n = z = +Infinity\<close>.
\<close>

theorem makeViewingConditions_never_fails:
  "\<not> isl (makeViewingConditions la yb wp sur)
   \<and> Fl (projr (makeViewingConditions (Num 0) yb wp sur)) = Num 0
   \<and> Nbb (projr (makeViewingConditions la (Num 0) \<lparr>X = wx, Y = Num 100, Z = wz\<rparr> sur)) = PInf
   \<and> n (projr (makeViewingConditions la (Num 20) \<lparr>X = wx, Y = Num 0, Z = wz\<rparr> sur)) = PInf
   \<and> z (projr (makeViewingConditions la (Num 20) \<lparr>X = wx, Y = Num 0, Z = wz\<rparr> sur)) = PInf"
  by (simp add: makeViewingConditions_Inr makeViewingConditionsTry_fields Let_def signedInf_def
      powFinite_def)

text \<open>The claim as stated asks for a failure when \<open>La \<le> 0\<close>, \<open>Yb \<le> 0\<close> or
  \<open>whitePoint.Y \<le> 0\<close>; each of these inputs gives a success.\<close>

theorem makeViewingConditions_never_fails_counterexample:
  "\<not> isl (makeViewingConditions (Num 0) (Num 20) D65_WHITE_POINT average)
   \<and> \<not> isl (makeViewingConditions (Num 64) (Num 0) D65_WHITE_POINT average)
   \<and> Nbb (projr (makeViewingConditions (Num 64) (Num 0) D65_WHITE_POINT average)) = PInf
   \<and> \<not> isl (makeViewingConditions (Num 64) (Num 20) \<lparr>X = Num 95.047, Y = Num 0, Z = Num 108.883\<rparr>
              average)
   \<and> \<not> isl (makeViewingConditions (Num (- 1)) (Num (- 1)) \<lparr>X = Num 95.047, Y = Num (- 1), Z = Num 108.883\<rparr>
              average)"
  by (simp add: makeViewingConditions_Inr makeViewingConditionsTry_fields D65_WHITE_POINT_def
      signedInf_def powFinite_def)

lemma F_resolveSurround:
  "F (resolveSurround sur) = Num (case sur of average \<Rightarrow> 1 | dim \<Rightarrow> 0.9 | dark \<Rightarrow> 0.8)"
  by (cases sur)
    (simp_all add: resolveSurround_def SURROUND_AVERAGE_def SURROUND_DIM_def SURROUND_DARK_def)

lemma clamp_Num:
  "Math_max (Num 0) (Math_min (Num 1) (Num d)) = Num (max 0 (min 1 d))"
  by (simp add: Math_max_def Math_min_def max_def min_def)

text \<open>
  Claim C5, as amended. For finite \<open>La > 0\<close>, \<open>Yb > 0\<close> and a white point of finite luminance
  \<open>Y > 0\<close> with \<open>Yb / Y\<close> between \<open>10^-300\<close> and \<open>10^300\<close>, and each of the three surrounds,
  the viewing conditions satisfy \<open>n = Yb / whitePoint.Y > 0\<close>, \<open>Nbb\<close> and \<open>Ncb\<close> are both 0.725
  times \<open>n\<close> to the power -0.2, \<open>z\<close> is 1.48 plus the square root of \<open>n\<close>, \<open>F\<close> is 1, 0.9 or
  0.8 for the average, dim or dark surround, and \<open>D\<close> is \<open>F (1 - (1 / 3.6) exp ((- La - 42) /
  92))\<close> clamped to \<open>[0, 1]\<close>. The bounds on \<open>Yb / Y\<close> keep the quotient and its reciprocal
  inside the range of the doubles, where the exact quotient of this model and the quotient
  of the program agree up to rounding.
\<close>

theorem makeViewingConditions_derived_fields_in_range:
  fixes la yb wy :: real
  assumes "0 < la" and "0 < yb" and "0 < wy"
    and "yb \<le> 10 ^ 300 * wy" and "wy \<le> 10 ^ 300 * yb"
  shows "\<exists>vc. makeViewingConditions (Num la) (Num yb) \<lparr>X = wx, Y = Num wy, Z = wz\<rparr> sur = Inr vc
     \<and> n vc = Num (yb / wy) \<and> 0 < yb / wy
     \<and> Nbb vc = Num (0.725 * (yb / wy) powr (- 0.2)) \<and> Ncb vc = Nbb vc
     \<and> z vc = Num (1.48 + sqrt (yb / wy))
     \<and> F (surround vc) = Num (case sur of average \<Rightarrow> 1 | dim \<Rightarrow> 0.9 | dark \<Rightarrow> 0.8)
     \<and> D vc = Num (max 0 (min 1
          ((case sur of average \<Rightarrow> 1 | dim \<Rightarrow> 0.9 | dark \<Rightarrow> 0.8)
           * (1 - (1 / 3.6) * exp ((- la - 42) / 92)))))
     \<and> Num 0 \<le> D vc \<and> D vc \<le> Num 1"
proof -
  let ?vc = "makeViewingConditionsTry (Num la) (Num yb) \<lparr>X = wx, Y = Num wy, Z = wz\<rparr> sur"
  let ?f = "case sur of average \<Rightarrow> 1 | dim \<Rightarrow> 0.9 | dark \<Rightarrow> (0.8 :: real)"
  have f: "F (surround ?vc) = Num ?f"
    by (simp add: makeViewingConditionsTry_fields F_resolveSurround)
  have npos: "0 < yb / wy" using assms by simp
  have n: "n ?vc = Num (yb / wy)"
    using assms by (simp add: makeViewingConditionsTry_fields)
  have "(wy / yb) powr 0.2 = (yb / wy) powr (- 0.2)"
    using assms by (simp add: powr_minus powr_divide field_simps)
  then have nbb: "Nbb ?vc = Num (0.725 * (yb / wy) powr (- 0.2))"
    using assms by (simp add: makeViewingConditionsTry_fields)
  have ncb: "Ncb ?vc = Nbb ?vc"
    by (simp add: makeViewingConditionsTry_fields)
  have z: "z ?vc = Num (1.48 + sqrt (yb / wy))"
    using assms npos by (simp add: makeViewingConditionsTry_fields not_less less_imp_le)
  have d: "D ?vc = Num (max 0 (min 1 (?f * (1 - (1 / 3.6) * exp ((- la - 42) / 92)))))"
    by (simp add: makeViewingConditionsTry_fields F_resolveSurround clamp_Num)
  have "Num 0 \<le> D ?vc \<and> D ?vc \<le> Num 1"
    unfolding d by simp
  with n npos nbb ncb z d f show ?thesis
    unfolding makeViewingConditions_Inr by blast
qed

theorem makeViewingConditions_derived_fields_in_range_witness:
  "(0::real) < 64 \<and> (0::real) < 20 \<and> (0::real) < 100
   \<and> (20::real) \<le> 10 ^ 300 * 100 \<and> (100::real) \<le> 10 ^ 300 * 20
   \<and> n (projr (makeViewingConditions (Num 64) (Num 20) D65_WHITE_POINT dim)) = Num (1 / 5)
   \<and> z (projr (makeViewingConditions (Num 64) (Num 20) D65_WHITE_POINT dim))
       = Num (1.48 + sqrt (1 / 5))
   \<and> Nbb (projr (makeViewingConditions (Num 64) (Num 20) D65_WHITE_POINT dim))
       = Num (0.725 * (1 / 5) powr (- 0.2))
   \<and> F (surround (projr (makeViewingConditions (Num 64) (Num 20) D65_WHITE_POINT dim)))
       = Num 0.9
   \<and> D (projr (makeViewingConditions (Num 64) (Num 20) D65_WHITE_POINT dim))
       = Num (max 0 (min 1 (0.9 * (1 - (1 / 3.6) * exp ((- 64 - 42) / 92)))))"
proof -
  have a: "(0::real) < 64" "(0::real) < 20" "(0::real) < 100"
    "(20::real) \<le> 10 ^ 300 * 100" "(100::real) \<le> 10 ^ 300 * 20" by simp_all
  from makeViewingConditions_derived_fields_in_range[OF a, of "Num 95.047" "Num 108.883" dim]
  obtain vc where "makeViewingConditions (Num 64) (Num 20)
       \<lparr>X = Num 95.047, Y = Num 100, Z = Num 108.883\<rparr> dim = Inr vc"
    "n vc = Num (20 / 100)" "Nbb vc = Num (0.725 * (20 / 100) powr (- 0.2))"
    "z vc = Num (1.48 + sqrt (20 / 100))"
    "F (surround vc) = Num (case dim of average \<Rightarrow> 1 | dim \<Rightarrow> 0.9 | dark \<Rightarrow> 0.8)"
    "D vc = Num (max 0 (min 1
          ((case dim of average \<Rightarrow> 1 | dim \<Rightarrow> 0.9 | dark \<Rightarrow> 0.8)
           * (1 - (1 / 3.6) * exp ((- 64 - 42) / 92)))))"
    by blast
  then show ?thesis
    using a by (simp add: D65_WHITE_POINT_def)
qed

text \<open>The claim as stated holds for every white point with \<open>Y > 0\<close>. The luminance
  \<open>+Infinity\<close> is positive, and for it \<open>n = Yb / Y\<close> is 0, not positive, and \<open>Nbb\<close> is
  \<open>+Infinity\<close>. A denormal \<open>Yb\<close> has the same effect in the program, where the quotient
  underflows to 0.\<close>

theorem makeViewingConditions_derived_fields_in_range_counterexample:
  "n (projr (makeViewingConditions (Num 64) (Num 20)
               \<lparr>X = Num 95.047, Y = PInf, Z = Num 108.883\<rparr> average)) = Num 0
   \<and> \<not> Num 0 < n (projr (makeViewingConditions (Num 64) (Num 20)
               \<lparr>X = Num 95.047, Y = PInf, Z = Num 108.883\<rparr> average))
   \<and> Nbb (projr (makeViewingConditions (Num 64) (Num 20)
               \<lparr>X = Num 95.047, Y = PInf, Z = Num 108.883\<rparr> average)) = PInf"
  by (simp add: makeViewingConditions_Inr makeViewingConditionsTry_fields signedInf_def
      powFinite_def)

section \<open>The saturation correlate\<close>

lemma whiteRgb_D65:
  "multiplyMatrixVec M_CAT02 (X D65_WHITE_POINT, Y D65_WHITE_POINT, Z D65_WHITE_POINT) =
     (Num 94.9278424, Num 103.5391171, Num 108.7206832)"
  by (simp add: M_CAT02_def D65_WHITE_POINT_def)

lemma adaptedCones_D65_Num:
  "adaptedCones (Num d) D65_WHITE_POINT (Num r, Num g, Num b) =
     (Num ((d * 100 / 94.9278424 + 1 - d) * r),
      Num ((d * 100 / 103.5391171 + 1 - d) * g),
      Num ((d * 100 / 108.7206832 + 1 - d) * b))"
  unfolding adaptedCones_def whiteRgb_D65 Let_def
  by (simp add: D65_WHITE_POINT_def)

lemma nonlinearAdaptation_Fl_0: "nonlinearAdaptation (Num v) (Num 0) = Num 0.1"
  by (simp add: nonlinearAdaptation_def Let_def CONE_RESPONSE_EXPONENT_def CONE_RESPONSE_SCALE_def
      CONE_RESPONSE_OFFSET_def POST_ADAPTATION_OFFSET_def powFinite_def)

lemma coneResponses_Fl_0:
  "coneResponses (Num r, Num g, Num b) (Num 0) = (Num 0.1, Num 0.1, Num 0.1)"
  by (simp add: coneResponses_def Let_def M_HPE_def M_CAT02_INV_def nonlinearAdaptation_Fl_0)

lemma forwardResponses_zeroFl:
  "forwardResponses \<lparr>X = Num x, Y = Num y, Z = Num z'\<rparr> D65_WHITE_POINT zeroFlConditions =
     (Num 0.1, Num 0.1, Num 0.1)"
  by (simp add: forwardResponses_def zeroFlConditions_def M_CAT02_def adaptedCones_D65_Num
      coneResponses_Fl_0)

lemma J_zeroFl:
  "J (forwardTry \<lparr>X = Num x, Y = Num y, Z = Num z'\<rparr> D65_WHITE_POINT zeroFlConditions) = Num 0"
  unfolding forwardTry_J forwardResponses_zeroFl
  by (simp add: achromatic_def lightness_def zeroFlConditions_def SURROUND_AVERAGE_def
      )

lemma Q_zeroFl:
  "Q (forwardTry \<lparr>X = Num x, Y = Num y, Z = Num z'\<rparr> D65_WHITE_POINT zeroFlConditions) = Num 0"
  unfolding forwardTry_Q J_zeroFl
  by (simp add: brightness_def zeroFlConditions_def SURROUND_AVERAGE_def)

lemma M_zeroFl:
  "M (forwardTry \<lparr>X = Num x, Y = Num y, Z = Num z'\<rparr> D65_WHITE_POINT zeroFlConditions) = Num 0"
proof -
  have "hueAngle (Num 0.1, Num 0.1, Num 0.1) = Num 0"
    by (simp add: hueAngle_def opponentA_def opponentB_def Let_def RAD_TO_DEG_def Math_PI_def
        atan2Finite_def)
  moreover have "isFinite (eccentricityFactor (Num 0))"
    by (rule eccentricityFactor_finite_hp[where hp = 360]) (simp_all add: hp_Num)
  then obtain e where "eccentricityFactor (Num 0) = Num e"
    by (cases "eccentricityFactor (Num 0)") (simp_all add: isFinite_def)
  ultimately have t: "chromaT (Num 0.1, Num 0.1, Num 0.1) zeroFlConditions = Num 0"
    by (simp add: chromaT_def opponentA_def opponentB_def Let_def zeroFlConditions_def
        SURROUND_AVERAGE_def)
  show ?thesis
    unfolding forwardTry_M forwardTry_C J_zeroFl forwardResponses_zeroFl t
    by (simp add: chroma_def zeroFlConditions_def)
qed

lemma divide_by_zero_not_finite: "\<not> isFinite (Num 100 * Math_pow (m / Num 0) (Num 0.5))"
  by (cases m) (simp_all add: isFinite_def powFinite_def signedInf_def)

text \<open>
  Claim C3, as amended. The forward transform computes the saturation as
  100 times the square root of \<open>M / Q\<close> (\<open>Math.pow\<close> with exponent 0.5), with no guard on \<open>Q\<close>: it always returns a success, and when
  the brightness \<open>Q\<close> is 0 the returned \<open>s\<close> is not 0 but a non-finite value (NaN or an
  infinity).
\<close>

theorem forward_saturation_unguarded:
  "\<exists>r. forward xyz wp cond = Inr r
       \<and> s r = Num 100 * Math_pow (M r / Q r) (Num 0.5)
       \<and> (Q r = Num 0 \<longrightarrow> s r \<noteq> Num 0 \<and> \<not> isFinite (s r))"
proof -
  let ?r = "forwardTry xyz wp cond"
  have "Q ?r = Num 0 \<longrightarrow> s ?r \<noteq> Num 0 \<and> \<not> isFinite (s ?r)"
    using divide_by_zero_not_finite[of "M ?r"]
    by (auto simp: forwardTry_s isFinite_def)
  then show ?thesis
    using forwardTry_s[of xyz wp cond] by (simp add: forward_Inr)
qed

theorem forward_saturation_unguarded_witness:
  "Q (projr (forward \<lparr>X = Num 50, Y = Num 50, Z = Num 50\<rparr> D65_WHITE_POINT zeroFlConditions))
     = Num 0
   \<and> \<not> isFinite (s (projr (forward \<lparr>X = Num 50, Y = Num 50, Z = Num 50\<rparr> D65_WHITE_POINT
                             zeroFlConditions)))"
proof -
  let ?f = "forward \<lparr>X = Num 50, Y = Num 50, Z = Num 50\<rparr> D65_WHITE_POINT zeroFlConditions"
  have q: "Q (projr ?f) = Num 0"
    unfolding forward_Inr sum.sel by (rule Q_zeroFl)
  from forward_saturation_unguarded[of "\<lparr>X = Num 50, Y = Num 50, Z = Num 50\<rparr>"
      D65_WHITE_POINT zeroFlConditions]
  obtain r where r: "?f = Inr r" "Q r = Num 0 \<longrightarrow> s r \<noteq> Num 0 \<and> \<not> isFinite (s r)"
    by blast
  with q show ?thesis by simp
qed

text \<open>The claim as stated asks for \<open>s = 0\<close> when \<open>Q \<le> 0\<close>. Under viewing conditions with
  \<open>Fl = 0\<close> the brightness is 0 and the returned saturation is NaN.\<close>

theorem forward_saturation_unguarded_counterexample:
  "Q (projr (forward \<lparr>X = Num 19.31, Y = Num 23.93, Z = Num 10.14\<rparr> D65_WHITE_POINT
               zeroFlConditions)) \<le> Num 0
   \<and> s (projr (forward \<lparr>X = Num 19.31, Y = Num 23.93, Z = Num 10.14\<rparr> D65_WHITE_POINT
                 zeroFlConditions)) = NaN
   \<and> s (projr (forward \<lparr>X = Num 19.31, Y = Num 23.93, Z = Num 10.14\<rparr> D65_WHITE_POINT
                 zeroFlConditions)) \<noteq> Num 0"
  unfolding forward_Inr sum.sel forwardTry_s M_zeroFl Q_zeroFl
  by (simp add: signedInf_def)

section \<open>Non-finite values in the transforms\<close>

lemma adaptedCones_zero_white:
  "adaptedCones d \<lparr>X = Num 0, Y = Num 0, Z = Num 0\<rparr> rgb = (NaN, NaN, NaN)"
  by (simp add: adaptedCones_def Let_def M_CAT02_def)

lemma forwardResponses_zero_white:
  "forwardResponses xyz \<lparr>X = Num 0, Y = Num 0, Z = Num 0\<rparr> cond = (NaN, NaN, NaN)"
  by (simp add: forwardResponses_def adaptedCones_zero_white coneResponses_def)

lemma hueAngle_NaN: "hueAngle (NaN, NaN, NaN) = NaN"
  by (simp add: hueAngle_def opponentA_def opponentB_def Let_def)

lemma zero_over_zero_times: "Num 0 / (Num 0 * x) = NaN"
  by (cases x) (simp_all add: signedInf_def)

lemma inverseTry_black:
  "inverseTry \<lparr>J = Num 0, C = Num 0, h = hue\<rparr> wp cond = \<lparr>X = NaN, Y = NaN, Z = NaN\<rparr>"
  by (simp add: inverseTry_def Let_def zero_over_zero_times recoverRa_def recoverGa_def recoverBa_def)

text \<open>
  Claim C4, as amended. \<open>forward\<close> and \<open>inverse\<close> never return a failure: every input
  gives a success value, and a non-finite intermediate value is passed on into the
  returned record. With a zero white point \<open>forward\<close> returns the hue NaN for every colour
  and all viewing conditions, and \<open>inverse\<close> of \<open>J = 0\<close>, \<open>C = 0\<close> returns NaN in all three
  components for every hue, white point and viewing conditions.
\<close>

theorem forward_inverse_always_succeed:
  "\<not> isl (forward xyz wp cond) \<and> \<not> isl (inverse_transform jch wp cond)
   \<and> h (projr (forward xyz \<lparr>X = Num 0, Y = Num 0, Z = Num 0\<rparr> cond)) = NaN
   \<and> projr (inverse_transform \<lparr>J = Num 0, C = Num 0, h = hue\<rparr> wp cond)
       = \<lparr>X = NaN, Y = NaN, Z = NaN\<rparr>"
  by (simp add: forward_Inr inverse_transform_Inr forwardTry_h forwardResponses_zero_white
      hueAngle_NaN inverseTry_black)

text \<open>The claim as stated asks for a failure whenever an intermediate value is
  non-finite. Under the viewing conditions of \<open>La = 64\<close>, \<open>Yb = 20\<close> and D65, \<open>forward\<close> with
  a zero white point and \<open>inverse\<close> of \<open>J = 0\<close>, \<open>C = 0\<close> succeed with NaN fields.\<close>

theorem forward_inverse_always_succeed_counterexample:
  "\<not> isl (forward \<lparr>X = Num 19.31, Y = Num 23.93, Z = Num 10.14\<rparr>
             \<lparr>X = Num 0, Y = Num 0, Z = Num 0\<rparr>
             (projr (makeViewingConditions (Num 64) (Num 20) D65_WHITE_POINT average)))
   \<and> J (projr (forward \<lparr>X = Num 19.31, Y = Num 23.93, Z = Num 10.14\<rparr>
                 \<lparr>X = Num 0, Y = Num 0, Z = Num 0\<rparr>
                 (projr (makeViewingConditions (Num 64) (Num 20) D65_WHITE_POINT average)))) = NaN
   \<and> \<not> isl (inverse_transform \<lparr>J = Num 0, C = Num 0, h = Num 0\<rparr> D65_WHITE_POINT
                (projr (makeViewingConditions (Num 64) (Num 20) D65_WHITE_POINT average)))
   \<and> X (projr (inverse_transform \<lparr>J = Num 0, C = Num 0, h = Num 0\<rparr> D65_WHITE_POINT
                (projr (makeViewingConditions (Num 64) (Num 20) D65_WHITE_POINT average)))) = NaN"
proof -
  have "0 \<le> sqrt (1 / 5 :: real)" by simp
  then have "0 < 0.69 * (1.48 + sqrt (1 / 5 :: real))"
    by (intro mult_pos_pos add_pos_nonneg) simp_all
  then have "0.69 * (1.48 + sqrt (1 / 5)) \<noteq> (0::real)" by linarith
  then show ?thesis
    by (simp add: forward_Inr inverse_transform_Inr makeViewingConditions_Inr forwardTry_J
        forwardResponses_zero_white inverseTry_black achromatic_def lightness_def
        makeViewingConditionsTry_fields D65_WHITE_POINT_def resolveSurround_def
        SURROUND_AVERAGE_def)
qed

section \<open>Viewing conditions on finite inputs\<close>

lemma resolveSurround_Num:
  "resolveSurround sur = \<lparr>F = Num (surroundF sur), c = Num (surroundC sur), Nc = Num (surroundNc sur)\<rparr>"
  by (cases sur)
    (simp_all add: resolveSurround_def SURROUND_AVERAGE_def SURROUND_DIM_def SURROUND_DARK_def
      surroundF_def surroundC_def surroundNc_def)

lemma surround_pos: "0 < surroundF sur" "surroundF sur \<le> 1" "0 < surroundC sur" "0 < surroundNc sur"
  by (cases sur; simp add: surroundF_def surroundC_def surroundNc_def)+

lemma luminanceFactor_pos:
  assumes "0 < la"
  shows "0 < luminanceFactor la"
proof -
  define k where "k = 1 / (5 * la + 1)"
  have k: "0 < k" "k < 1" using assms by (simp_all add: k_def)
  have k4: "0 < k * k * k * k" using k by simp
  have "k ^ 4 < 1" using k by (simp add: power_less_one_iff)
  then have "k * k * k * k < 1" by (simp add: power4_eq_xxxx)
  then have "0 \<le> 0.1 * (1 - k * k * k * k) powr 2 * (5 * la) powr (1 / 3)"
    by simp
  moreover have "0 < 0.2 * (k * k * k * k) * (5 * la)"
    using k assms by (intro mult_pos_pos) simp_all
  ultimately show ?thesis
    unfolding luminanceFactor_def Let_def k_def[symmetric] by linarith
qed

lemma Fl_Num:
  assumes "0 < la"
  shows "Fl (makeViewingConditionsTry (Num la) yb wp sur) = Num (luminanceFactor la)"
proof -
  define k where "k = 1 / (5 * la + 1)"
  have k: "0 < k" "k < 1" using assms by (simp_all add: k_def)
  have "k ^ 4 < 1" using k by (simp add: power_less_one_iff)
  then have k4: "0 < 1 - k * k * k * k" by (simp add: power4_eq_xxxx)
  have nz: "5 * la + 1 \<noteq> 0" using assms by simp
  have kN: "Num 1 / (Num 5 * Num la + Num 1) = Num k"
    using nz by (simp add: k_def)
  show ?thesis
    unfolding makeViewingConditionsTry_fields kN Let_def
    using k4 assms by (simp add: luminanceFactor_def Let_def k_def)
qed

lemma D_Num:
  "D (makeViewingConditionsTry (Num la) yb wp sur) = Num (adaptationDegree (surroundF sur) la)"
  by (simp add: makeViewingConditionsTry_fields resolveSurround_Num clamp_Num adaptationDegree_def)

lemma adaptationDegree_range: "0 \<le> adaptationDegree f la" "adaptationDegree f la \<le> 1"
  by (simp_all add: adaptationDegree_def)

lemma Nbb_Num:
  assumes "0 < yb" "0 < wy"
  shows "Nbb (makeViewingConditionsTry la (Num yb) \<lparr>X = wx, Y = Num wy, Z = wz\<rparr> sur)
           = Num (0.725 * (wy / yb) powr 0.2)"
    and "Ncb (makeViewingConditionsTry la (Num yb) \<lparr>X = wx, Y = Num wy, Z = wz\<rparr> sur)
           = Num (0.725 * (wy / yb) powr 0.2)"
    and "n (makeViewingConditionsTry la (Num yb) \<lparr>X = wx, Y = Num wy, Z = wz\<rparr> sur)
           = Num (yb / wy)"
    and "z (makeViewingConditionsTry la (Num yb) \<lparr>X = wx, Y = Num wy, Z = wz\<rparr> sur)
           = Num (1.48 + sqrt (yb / wy))"
    and "c (surround (makeViewingConditionsTry la (Num yb) \<lparr>X = wx, Y = Num wy, Z = wz\<rparr> sur))
           = Num (surroundC sur)"
    and "Nc (surround (makeViewingConditionsTry la (Num yb) \<lparr>X = wx, Y = Num wy, Z = wz\<rparr> sur))
           = Num (surroundNc sur)"
  using assms
  by (simp_all add: makeViewingConditionsTry_fields resolveSurround_Num not_less less_imp_le)

lemma powFinite_nonneg: "0 \<le> x \<Longrightarrow> 0 < y \<Longrightarrow> powFinite (Num x) y = Num (x powr y)"
  by (cases "x = 0") simp_all

lemma nonlinearAdaptation_Num:
  assumes "0 \<le> v" "0 \<le> fl"
  shows "nonlinearAdaptation (Num v) (Num fl) = Num (compress v fl)"
proof -
  have nn: "0 \<le> fl * v / 100" using assms by simp
  have "0 < (fl * v / 100) powr 0.42 + 27.13"
    by (intro add_nonneg_pos) simp_all
  then have nz: "(fl * v / 100) powr 0.42 + 27.13 \<noteq> 0" by simp
  have "nonlinearAdaptation (Num v) (Num fl) =
      Num 1 * (Num 400 * powFinite (Num (fl * v / 100)) 0.42) /
        (powFinite (Num (fl * v / 100)) 0.42 + Num 27.13) + Num 0.1"
    using assms
    by (simp add: nonlinearAdaptation_def Let_def CONE_RESPONSE_EXPONENT_def
        CONE_RESPONSE_SCALE_def CONE_RESPONSE_OFFSET_def POST_ADAPTATION_OFFSET_def)
  also have "\<dots> = Num (compress v fl)"
  proof -
    have pf: "powFinite (Num (fl * v / 100)) 0.42 = Num ((fl * v / 100) powr 0.42)"
      using nn by (rule powFinite_nonneg) simp
    show ?thesis
      unfolding pf using nz by (simp add: compress_def Let_def)
  qed
  finally show ?thesis .
qed

lemma compress_ge: "0.1 \<le> compress v fl"
proof -
  define p where "p = (fl * v / 100) powr 0.42"
  have "0 \<le> p" by (simp add: p_def)
  then have "0 \<le> 400 * p / (p + 27.13)"
    by (intro divide_nonneg_nonneg) simp_all
  then show ?thesis by (simp add: compress_def Let_def p_def)
qed

lemma compress_gt:
  assumes "0 < v" "0 < fl"
  shows "0.1 < compress v fl"
proof -
  define p where "p = (fl * v / 100) powr 0.42"
  have "fl * v / 100 \<noteq> 0" using assms by simp
  then have "0 < p" unfolding p_def by simp
  then have "0 < 400 * p / (p + 27.13)"
    by (intro divide_pos_pos) simp_all
  then show ?thesis by (simp add: compress_def Let_def p_def)
qed

lemma hpe_Num:
  "multiplyMatrixVec M_HPE (multiplyMatrixVec M_CAT02_INV (Num rc, Num gc, Num bc)) =
     (Num (0.38971 * (1.096124 * rc + - 0.278869 * gc + 0.182745 * bc)
           + 0.68898 * (0.454369 * rc + 0.473533 * gc + 0.072098 * bc)
           + - 0.07868 * (- 0.009628 * rc + - 0.005698 * gc + 1.015326 * bc)),
      Num (- 0.22981 * (1.096124 * rc + - 0.278869 * gc + 0.182745 * bc)
           + 1.18340 * (0.454369 * rc + 0.473533 * gc + 0.072098 * bc)
           + 0.04641 * (- 0.009628 * rc + - 0.005698 * gc + 1.015326 * bc)),
      Num (- 0.009628 * rc + - 0.005698 * gc + 1.015326 * bc))"
  by (simp add: M_HPE_def M_CAT02_INV_def)

lemma hpe_pos:
  fixes rc gc bc :: real
  assumes "94 \<le> rc" "rc \<le> 101" "99 \<le> gc" "gc \<le> 104" "99 \<le> bc" "bc \<le> 109"
  shows "0 < 0.38971 * (1.096124 * rc + - 0.278869 * gc + 0.182745 * bc)
           + 0.68898 * (0.454369 * rc + 0.473533 * gc + 0.072098 * bc)
           + - 0.07868 * (- 0.009628 * rc + - 0.005698 * gc + 1.015326 * bc)"
    and "0 < - 0.22981 * (1.096124 * rc + - 0.278869 * gc + 0.182745 * bc)
           + 1.18340 * (0.454369 * rc + 0.473533 * gc + 0.072098 * bc)
           + 0.04641 * (- 0.009628 * rc + - 0.005698 * gc + 1.015326 * bc)"
    and "0 < - 0.009628 * rc + - 0.005698 * gc + 1.015326 * bc"
  using assms by (simp_all add: algebra_simps)

lemma white_rgc_D65:
  fixes d :: real
  assumes "0 \<le> d" "d \<le> 1"
  shows "94 \<le> (d * 100 / 94.9278424 + 1 - d) * 94.9278424"
    "(d * 100 / 94.9278424 + 1 - d) * 94.9278424 \<le> 101"
    "99 \<le> (d * 100 / 103.5391171 + 1 - d) * 103.5391171"
    "(d * 100 / 103.5391171 + 1 - d) * 103.5391171 \<le> 104"
    "99 \<le> (d * 100 / 108.7206832 + 1 - d) * 108.7206832"
    "(d * 100 / 108.7206832 + 1 - d) * 108.7206832 \<le> 109"
  using assms by (simp_all add: algebra_simps)

lemma white_hpe_D65:
  assumes "0 \<le> d" "d \<le> 1"
  shows "\<exists>lc mc sc. multiplyMatrixVec M_HPE (multiplyMatrixVec M_CAT02_INV
            (adaptedCones (Num d) D65_WHITE_POINT
               (multiplyMatrixVec M_CAT02
                  (X D65_WHITE_POINT, Y D65_WHITE_POINT, Z D65_WHITE_POINT))))
          = (Num lc, Num mc, Num sc) \<and> 0 < lc \<and> 0 < mc \<and> 0 < sc"
  unfolding whiteRgb_D65 adaptedCones_D65_Num hpe_Num
  using hpe_pos[OF white_rgc_D65[OF assms]] by blast

lemma coneResponses_pos:
  assumes "multiplyMatrixVec M_HPE (multiplyMatrixVec M_CAT02_INV rgc) = (Num lc, Num mc, Num sc)"
    and "0 < lc" "0 < mc" "0 < sc" "0 < fl"
  shows "\<exists>ra ga ba. coneResponses rgc (Num fl) = (Num ra, Num ga, Num ba)
           \<and> 0.1 < ra \<and> 0.1 < ga \<and> 0.1 < ba"
  using assms compress_gt[of lc fl] compress_gt[of mc fl] compress_gt[of sc fl]
  by (simp add: coneResponses_def Let_def nonlinearAdaptation_Num)

lemma Aw_D65_pos:
  assumes "0 < la" "0 < yb"
  shows "\<exists>aw. Aw (makeViewingConditionsTry (Num la) (Num yb) D65_WHITE_POINT sur) = Num aw \<and> 0 < aw"
proof -
  let ?vc = "makeViewingConditionsTry (Num la) (Num yb) D65_WHITE_POINT sur"
  have d: "D ?vc = Num (adaptationDegree (surroundF sur) la)" by (rule D_Num)
  have fl: "Fl ?vc = Num (luminanceFactor la)" by (rule Fl_Num[OF assms(1)])
  have nbb: "Nbb ?vc = Num (0.725 * (100 / yb) powr 0.2)"
    using Nbb_Num(1)[OF assms(2), of 100] by (simp add: D65_WHITE_POINT_def)
  from white_hpe_D65[OF adaptationDegree_range]
  obtain lc mc sc where "multiplyMatrixVec M_HPE (multiplyMatrixVec M_CAT02_INV
            (adaptedCones (Num (adaptationDegree (surroundF sur) la)) D65_WHITE_POINT
               (multiplyMatrixVec M_CAT02
                  (X D65_WHITE_POINT, Y D65_WHITE_POINT, Z D65_WHITE_POINT))))
          = (Num lc, Num mc, Num sc)" "0 < lc" "0 < mc" "0 < sc"
    by blast
  from coneResponses_pos[OF this luminanceFactor_pos[OF assms(1)]]
  obtain ra ga ba where r: "coneResponses
      (adaptedCones (Num (adaptationDegree (surroundF sur) la)) D65_WHITE_POINT
               (multiplyMatrixVec M_CAT02
                  (X D65_WHITE_POINT, Y D65_WHITE_POINT, Z D65_WHITE_POINT)))
      (Num (luminanceFactor la)) = (Num ra, Num ga, Num ba)"
    and pos: "0.1 < ra" "0.1 < ga" "0.1 < ba"
    by blast
  have "0 < 2 * ra + ga + 1 / 20 * ba - 0.305" using pos by simp
  moreover have "0 < 0.725 * (100 / yb) powr 0.2" using assms by simp
  ultimately have "0 < (2 * ra + ga + 1 / 20 * ba - 0.305) * (0.725 * (100 / yb) powr 0.2)"
    by (rule mult_pos_pos)
  moreover have "Aw ?vc = Num ((2 * ra + ga + 1 / 20 * ba - 0.305) * (0.725 * (100 / yb) powr 0.2))"
    unfolding makeViewingConditionsTry_Aw d fl nbb r
    by (simp add: achromatic_def)
  ultimately show ?thesis by blast
qed

section \<open>Black\<close>





section \<open>The white point under the viewing conditions of the unit tests\<close>

subsection \<open>Bounds on the powers and exponentials\<close>

lemma powr_rat_lower:
  fixes c x :: real
  assumes "0 < c" "0 < x" "0 < q" "c ^ q \<le> x ^ p"
  shows "c \<le> x powr (real p / real q)"
proof -
  have "c = (c ^ q) powr (1 / real q)"
    using assms by (simp add: powr_realpow[symmetric] powr_powr)
  also have "\<dots> \<le> (x ^ p) powr (1 / real q)"
    using assms by (intro powr_mono2) simp_all
  also have "\<dots> = x powr (real p / real q)"
    using assms by (simp add: powr_realpow[symmetric] powr_powr)
  finally show ?thesis .
qed

lemma powr_rat_upper:
  fixes c x :: real
  assumes "0 < c" "0 < x" "0 < q" "x ^ p \<le> c ^ q"
  shows "x powr (real p / real q) \<le> c"
proof -
  have "x powr (real p / real q) = (x ^ p) powr (1 / real q)"
    using assms by (simp add: powr_realpow[symmetric] powr_powr)
  also have "\<dots> \<le> (c ^ q) powr (1 / real q)"
    using assms by (intro powr_mono2) simp_all
  also have "\<dots> = c"
    using assms by (simp add: powr_realpow[symmetric] powr_powr)
  finally show ?thesis .
qed

lemma exp_53_46_lower: "3.15 \<le> exp (53 / 46 :: real)"
proof -
  have "(3.15 :: real) \<le> (1 + 53 / 368 + (53 / 368)\<^sup>2 / 2) ^ 8"
    by (simp add: power2_eq_square power_divide)
  also have "\<dots> \<le> exp (53 / 368 :: real) ^ 8"
    by (intro power_mono exp_lower_Taylor_quadratic) simp_all
  also have "\<dots> = exp (of_nat 8 * (53 / 368 :: real))"
    by (rule exp_of_nat_mult[symmetric])
  also have "\<dots> = exp (53 / 46 :: real)" by simp
  finally show ?thesis .
qed

lemma exp_53_46_upper: "exp (53 / 46 :: real) \<le> 3.23"
proof -
  have "exp (53 / 46 :: real) = exp (of_nat 32 * (53 / 1472 :: real))" by simp
  also have "\<dots> = exp (53 / 1472 :: real) ^ 32"
    by (rule exp_of_nat_mult)
  also have "\<dots> \<le> (1 + 53 / 1472 + (53 / 1472)\<^sup>2) ^ 32"
    by (intro power_mono exp_bound) simp_all
  also have "\<dots> \<le> (3.23 :: real)"
    by (simp add: power2_eq_square power_divide)
  finally show ?thesis .
qed

lemma cube_root_320: "6.8399 \<le> (320 :: real) powr (1 / 3)" "(320 :: real) powr (1 / 3) \<le> 6.84"
proof -
  have "(6.8399 :: real) \<le> 320 powr (real 1 / real 3)"
    by (rule powr_rat_lower) (simp_all add: power_divide)
  then show "6.8399 \<le> (320 :: real) powr (1 / 3)" by simp
  have "(320 :: real) powr (real 1 / real 3) \<le> 6.84"
    by (rule powr_rat_upper) (simp_all add: power_divide)
  then show "(320 :: real) powr (1 / 3) \<le> 6.84" by simp
qed

lemma adaptationDegree_64:
  "0.9118 \<le> adaptationDegree 1 64" "adaptationDegree 1 64 \<le> 0.9141"
proof -
  define E :: real where "E = exp ((- 64 - 42) / 92)"
  have e: "E = 1 / exp (53 / 46)"
    by (simp add: E_def exp_minus' [symmetric])
  have pos: "0 < exp (53 / 46 :: real)" by simp
  have "1 / 3.23 \<le> 1 / exp (53 / 46 :: real)"
    using exp_53_46_upper pos by (intro divide_left_mono) simp_all
  then have lo: "0.3095 \<le> E" unfolding e by simp
  have "1 / exp (53 / 46 :: real) \<le> 1 / 3.15"
    using exp_53_46_lower pos by (intro divide_left_mono) simp_all
  then have hi: "E \<le> 0.3175" unfolding e by simp
  have d: "adaptationDegree 1 64 = max 0 (min 1 (1 * (1 - 1 / 3.6 * E)))"
    by (simp only: adaptationDegree_def E_def)
  show "0.9118 \<le> adaptationDegree 1 64" "adaptationDegree 1 64 \<le> 0.9141"
    unfolding d using lo hi by (simp_all add: max_def min_def)
qed

lemma luminanceFactor_64:
  "0.6839 \<le> luminanceFactor 64" "luminanceFactor 64 \<le> 0.6841"
proof -
  define q :: real where "q = 320 powr (1 / 3)"
  have q: "6.8399 \<le> q" "q \<le> 6.84"
    using cube_root_320 by (simp_all add: q_def)
  have "luminanceFactor 64 =
      0.2 * (1 / 321 * (1 / 321) * (1 / 321) * (1 / 321)) * 320
      + 0.1 * (1 - 1 / 321 * (1 / 321) * (1 / 321) * (1 / 321))\<^sup>2 * q"
    by (simp add: luminanceFactor_def Let_def q_def)
  then show "0.6839 \<le> luminanceFactor 64" "luminanceFactor 64 \<le> 0.6841"
    using q by (simp_all add: power2_eq_square)
qed

subsection \<open>The compressed responses of the D65 white\<close>

lemma white_cones_64:
  fixes d :: real
  assumes "0.9118 \<le> d" "d \<le> 0.9141"
  shows "\<exists>lc mc sc. multiplyMatrixVec M_HPE (multiplyMatrixVec M_CAT02_INV
            (adaptedCones (Num d) D65_WHITE_POINT
               (multiplyMatrixVec M_CAT02
                  (X D65_WHITE_POINT, Y D65_WHITE_POINT, Z D65_WHITE_POINT))))
          = (Num lc, Num mc, Num sc)
        \<and> 99.7 \<le> lc \<and> mc \<le> 100.8 \<and> sc \<le> 100.8
        \<and> 1.00358 * lc \<le> mc \<and> mc \<le> sc \<and> sc \<le> 1.00646 * mc"
proof -
  define rc gc bc where "rc = (d * 100 / 94.9278424 + 1 - d) * 94.9278424"
    and "gc = (d * 100 / 103.5391171 + 1 - d) * 103.5391171"
    and "bc = (d * 100 / 108.7206832 + 1 - d) * 108.7206832"
  have rc: "rc = 94.9278424 + d * 5.0721576"
    and gc: "gc = 103.5391171 - d * 3.5391171"
    and bc: "bc = 108.7206832 - d * 8.7206832"
    by (simp_all add: rc_def gc_def bc_def algebra_simps)
  define lc mc sc where
    "lc = 0.38971 * (1.096124 * rc + - 0.278869 * gc + 0.182745 * bc)
           + 0.68898 * (0.454369 * rc + 0.473533 * gc + 0.072098 * bc)
           + - 0.07868 * (- 0.009628 * rc + - 0.005698 * gc + 1.015326 * bc)"
    and "mc = - 0.22981 * (1.096124 * rc + - 0.278869 * gc + 0.182745 * bc)
           + 1.18340 * (0.454369 * rc + 0.473533 * gc + 0.072098 * bc)
           + 0.04641 * (- 0.009628 * rc + - 0.005698 * gc + 1.015326 * bc)"
    and "sc = - 0.009628 * rc + - 0.005698 * gc + 1.015326 * bc"
  have eq: "multiplyMatrixVec M_HPE (multiplyMatrixVec M_CAT02_INV
            (adaptedCones (Num d) D65_WHITE_POINT
               (multiplyMatrixVec M_CAT02
                  (X D65_WHITE_POINT, Y D65_WHITE_POINT, Z D65_WHITE_POINT))))
          = (Num lc, Num mc, Num sc)"
    unfolding whiteRgb_D65 adaptedCones_D65_Num hpe_Num lc_def mc_def sc_def rc_def gc_def bc_def
    by (rule refl)
  have "99.7 \<le> lc" "mc \<le> 100.8" "sc \<le> 100.8" "1.00358 * lc \<le> mc" "mc \<le> sc"
    "sc \<le> 1.00646 * mc"
    unfolding lc_def mc_def sc_def rc gc bc
    using assms by (simp_all add: algebra_simps)
  with eq show ?thesis by blast
qed

lemma power_042_bounds:
  fixes fl v :: real
  assumes "0.6839 \<le> fl" "fl \<le> 0.6841" "99.7 \<le> v" "v \<le> 100.8"
  shows "0.851 \<le> (fl * v / 100) powr 0.42" "(fl * v / 100) powr 0.42 \<le> 0.856"
proof -
  have lo: "0.6839 * 99.7 / 100 \<le> fl * v / 100"
    using assms by (intro divide_right_mono mult_mono) simp_all
  have hi: "fl * v / 100 \<le> 0.6841 * 100.8 / 100"
    using assms by (intro divide_right_mono mult_mono) simp_all
  have "(0.851 :: real) \<le> (0.6839 * 99.7 / 100) powr (real 21 / real 50)"
    by (rule powr_rat_lower) (simp_all add: power_divide)
  also have "\<dots> \<le> (fl * v / 100) powr (real 21 / real 50)"
    using lo by (intro powr_mono2) simp_all
  finally show "0.851 \<le> (fl * v / 100) powr 0.42" by simp
  have "(fl * v / 100) powr (real 21 / real 50) \<le> (0.6841 * 100.8 / 100) powr (real 21 / real 50)"
    using hi lo by (intro powr_mono2) simp_all
  also have "\<dots> \<le> (0.856 :: real)"
    by (rule powr_rat_upper) (simp_all add: power_divide)
  finally show "(fl * v / 100) powr 0.42 \<le> 0.856" by simp
qed

lemma power_042_ratio:
  fixes fl x y :: real
  assumes "0 < fl" "0 < x" "0 < y"
  shows "(fl * y / 100) powr 0.42 = (fl * x / 100) powr 0.42 * (y / x) powr 0.42"
proof -
  have "fl * y / 100 = (fl * x / 100) * (y / x)" using assms by simp
  then show ?thesis using assms by (simp only: powr_mult)
qed

lemma compress_difference:
  fixes px py :: real
  assumes "0 \<le> px" "0 \<le> py"
  shows "(400 * py / (py + 27.13) + 0.1) - (400 * px / (px + 27.13) + 0.1)
           = 10852 * (py - px) / ((py + 27.13) * (px + 27.13))"
proof -
  have nz: "py + 27.13 \<noteq> 0" "px + 27.13 \<noteq> 0" using assms by simp_all
  have "400 * py / (py + 27.13) - 400 * px / (px + 27.13)
      = (400 * py * (px + 27.13) - 400 * px * (py + 27.13)) / ((py + 27.13) * (px + 27.13))"
    by (rule diff_frac_eq[OF nz])
  also have "400 * py * (px + 27.13) - 400 * px * (py + 27.13) = 10852 * (py - px)"
    by (simp add: algebra_simps)
  finally show ?thesis by simp
qed

lemma white_responses_64:
  fixes fl lc mc sc :: real
  assumes fl: "0.6839 \<le> fl" "fl \<le> 0.6841"
    and cones: "99.7 \<le> lc" "mc \<le> 100.8" "sc \<le> 100.8"
      "1.00358 * lc \<le> mc" "mc \<le> sc" "sc \<le> 1.00646 * mc"
  shows "0.0174 \<le> compress mc fl - compress lc fl"
    and "0 \<le> compress sc fl - compress mc fl"
    and "compress sc fl - compress mc fl \<le> 0.0323"
    and "0 < compress lc fl + compress mc fl + 21 * compress sc fl / 20"
    and "compress lc fl + compress mc fl + 21 * compress sc fl / 20 \<le> 37.7"
proof -
  define pl pm ps where "pl = (fl * lc / 100) powr 0.42"
    and "pm = (fl * mc / 100) powr 0.42" and "ps = (fl * sc / 100) powr 0.42"
  define \<rho> \<sigma> where "\<rho> = (mc / lc) powr 0.42" and "\<sigma> = (sc / mc) powr 0.42"
  have lm: "lc \<le> mc" using cones by simp
  have pos: "0 < fl" "0 < lc" "0 < mc" "0 < sc" using fl cones lm by simp_all
  have rng: "99.7 \<le> mc" "99.7 \<le> sc" "lc \<le> 100.8" using cones lm by simp_all
  have pl: "0.851 \<le> pl" "pl \<le> 0.856"
    unfolding pl_def using power_042_bounds[OF fl cones(1) rng(3)] by simp_all
  have pm: "0.851 \<le> pm" "pm \<le> 0.856"
    unfolding pm_def using power_042_bounds[OF fl rng(1) cones(2)] by simp_all
  have ps: "0.851 \<le> ps" "ps \<le> 0.856"
    unfolding ps_def using power_042_bounds[OF fl rng(2) cones(3)] by simp_all
  have pm_eq: "pm = pl * \<rho>"
    unfolding pm_def pl_def \<rho>_def by (rule power_042_ratio[OF pos(1,2,3)])
  have ps_eq: "ps = pm * \<sigma>"
    unfolding ps_def pm_def \<sigma>_def by (rule power_042_ratio[OF pos(1,3,4)])
  have "1.00358 \<le> mc / lc" using cones(4) pos by (simp add: pos_le_divide_eq)
  then have "(1.00358 :: real) powr (real 21 / real 50) \<le> (mc / lc) powr (real 21 / real 50)"
    by (intro powr_mono2) simp_all
  moreover have "(1.00148 :: real) \<le> 1.00358 powr (real 21 / real 50)"
    by (rule powr_rat_lower) (simp_all add: power_divide)
  ultimately have rho: "1.00148 \<le> \<rho>" unfolding \<rho>_def by simp
  have "sc / mc \<le> 1.00646" using cones(6) pos by (simp add: pos_divide_le_eq)
  then have "(sc / mc) powr (real 21 / real 50) \<le> (1.00646 :: real) powr (real 21 / real 50)"
    using pos by (intro powr_mono2) simp_all
  moreover have "(1.00646 :: real) powr (real 21 / real 50) \<le> 1.00272"
    by (rule powr_rat_upper) (simp_all add: power_divide)
  ultimately have sig_hi: "\<sigma> \<le> 1.00272" unfolding \<sigma>_def by simp
  have "1 \<le> sc / mc" using cones(5) pos by simp
  then have "(1 :: real) powr 0.42 \<le> (sc / mc) powr 0.42"
    by (intro powr_mono2) simp_all
  then have sig_lo: "1 \<le> \<sigma>" unfolding \<sigma>_def by simp
  have dml: "0.851 * 0.00148 \<le> pm - pl"
  proof -
    have "0.851 * 0.00148 \<le> pl * (\<rho> - 1)"
      using pl rho by (intro mult_mono) simp_all
    then show ?thesis unfolding pm_eq by (simp add: algebra_simps)
  qed
  have dsm: "0 \<le> ps - pm" "ps - pm \<le> 0.856 * 0.00272"
  proof -
    have "0 \<le> pm * (\<sigma> - 1)" using pm sig_lo by simp
    then show "0 \<le> ps - pm" unfolding ps_eq by (simp add: algebra_simps)
    have "pm * (\<sigma> - 1) \<le> 0.856 * 0.00272"
      using pm sig_hi sig_lo by (intro mult_mono) simp_all
    then show "ps - pm \<le> 0.856 * 0.00272" unfolding ps_eq by (simp add: algebra_simps)
  qed
  have cl: "compress lc fl = 400 * pl / (pl + 27.13) + 0.1"
    and cm: "compress mc fl = 400 * pm / (pm + 27.13) + 0.1"
    and cs: "compress sc fl = 400 * ps / (ps + 27.13) + 0.1"
    by (simp_all add: compress_def Let_def pl_def pm_def ps_def)
  have nn: "0 \<le> pl" "0 \<le> pm" "0 \<le> ps" using pl pm ps by simp_all
  have u: "compress mc fl - compress lc fl = 10852 * (pm - pl) / ((pm + 27.13) * (pl + 27.13))"
    unfolding cl cm by (rule compress_difference[OF nn(1,2)])
  have v: "compress sc fl - compress mc fl = 10852 * (ps - pm) / ((ps + 27.13) * (pm + 27.13))"
    unfolding cm cs by (rule compress_difference[OF nn(2,3)])
  have dlo: "27.981 * 27.981 \<le> (ps + 27.13) * (pm + 27.13)"
    using ps pm by (intro mult_mono) simp_all
  have dhi: "(pm + 27.13) * (pl + 27.13) \<le> 27.986 * 27.986"
    using pl pm by (intro mult_mono) simp_all
  have dpos: "0 < (pm + 27.13) * (pl + 27.13)" "0 < (ps + 27.13) * (pm + 27.13)"
    using nn by (simp_all add: add_nonneg_pos)
  show "0.0174 \<le> compress mc fl - compress lc fl"
  proof -
    have "0.0174 * ((pm + 27.13) * (pl + 27.13)) \<le> 0.0174 * (27.986 * 27.986)"
      by (rule mult_left_mono[OF dhi]) simp
    also have "\<dots> \<le> 10852 * (0.851 * 0.00148)" by simp
    also have "\<dots> \<le> 10852 * (pm - pl)"
      by (rule mult_left_mono[OF dml]) simp
    finally have "0.0174 * ((pm + 27.13) * (pl + 27.13)) \<le> 10852 * (pm - pl)" .
    then show ?thesis unfolding u pos_le_divide_eq[OF dpos(1)] .
  qed
  show "0 \<le> compress sc fl - compress mc fl"
    unfolding v using dsm(1) dpos(2) by simp
  show "compress sc fl - compress mc fl \<le> 0.0323"
  proof -
    have "10852 * (ps - pm) \<le> 10852 * (0.856 * 0.00272)"
      by (rule mult_left_mono[OF dsm(2)]) simp
    also have "\<dots> \<le> 0.0323 * (27.981 * 27.981)" by simp
    also have "\<dots> \<le> 0.0323 * ((ps + 27.13) * (pm + 27.13))"
      by (rule mult_left_mono[OF dlo]) simp
    finally have "10852 * (ps - pm) \<le> 0.0323 * ((ps + 27.13) * (pm + 27.13))" .
    then show ?thesis unfolding v pos_divide_le_eq[OF dpos(2)] .
  qed
  have up: "400 * p / (p + 27.13) + 0.1 \<le> 12.36" if "0.851 \<le> p" "p \<le> 0.856" for p :: real
  proof -
    have "400 * p \<le> 12.26 * (p + 27.13)" using that by simp
    moreover have "0 < p + 27.13" using that by simp
    ultimately have "400 * p / (p + 27.13) \<le> 12.26" by (simp add: pos_divide_le_eq)
    then show ?thesis by simp
  qed
  have lo: "0 < 400 * p / (p + 27.13) + 0.1" if "0.851 \<le> p" for p :: real
  proof -
    have "0 \<le> 400 * p / (p + 27.13)" using that by (intro divide_nonneg_nonneg) simp_all
    then show ?thesis by simp
  qed
  define ra ga ba where "ra = 400 * pl / (pl + 27.13) + 0.1"
    and "ga = 400 * pm / (pm + 27.13) + 0.1" and "ba = 400 * ps / (ps + 27.13) + 0.1"
  have r: "0 < ra" "0 < ga" "0 < ba" "ra \<le> 12.36" "ga \<le> 12.36" "ba \<le> 12.36"
    unfolding ra_def ga_def ba_def
    using lo[OF pl(1)] lo[OF pm(1)] lo[OF ps(1)] up[OF pl] up[OF pm] up[OF ps] by blast+
  have e: "compress lc fl = ra" "compress mc fl = ga" "compress sc fl = ba"
    unfolding cl cm cs ra_def ga_def ba_def by (rule refl)+
  show "0 < compress lc fl + compress mc fl + 21 * compress sc fl / 20"
    unfolding e using r by simp
  show "compress lc fl + compress mc fl + 21 * compress sc fl / 20 \<le> 37.7"
    unfolding e using r by simp
qed

subsection \<open>Hue, eccentricity and chroma of the D65 white\<close>

lemma hueAngle_third_quadrant:
  fixes ra ga ba :: real
  assumes a: "ra - 12 * ga / 11 + ba / 11 < 0"
    and b: "(ra + ga - 2 * ba) / 9 < 0"
    and ab: "ra - 12 * ga / 11 + ba / 11 \<le> (ra + ga - 2 * ba) / 9"
  shows "\<exists>hh. hueAngle (Num ra, Num ga, Num ba) = Num hh \<and> 180 \<le> hh \<and> hh \<le> 225"
proof -
  define av bv where "av = ra - 12 * ga / 11 + ba / 11" and "bv = (ra + ga - 2 * ba) / 9"
  have av: "av < 0" and bv: "bv < 0" and le: "av \<le> bv"
    using a b ab by (simp_all add: av_def bv_def)
  define q where "q = arctan (bv / av)"
  have "0 \<le> bv / av" using av bv by (simp add: divide_nonpos_neg)
  moreover have "bv / av \<le> 1" using av le by (simp add: neg_divide_le_eq)
  ultimately have q: "0 \<le> q" "q \<le> pi / 4"
    unfolding q_def using arctan_monotone'[of "bv / av" 1] by (simp_all add: arctan_one)
  have oa: "opponentA (Num ra) (Num ga) (Num ba) = Num av"
    and ob: "opponentB (Num ra) (Num ga) (Num ba) = Num bv"
    by (simp_all add: opponentA_def opponentB_def av_def bv_def)
  have at: "Math_atan2 (Num bv) (Num av) = Num (q - pi)"
    using av bv by (simp add: atan2Finite_def q_def)
  have rd: "RAD_TO_DEG = Num (180 / pi)"
    by (simp add: RAD_TO_DEG_def Math_PI_def)
  have "(q - pi) * (180 / pi) = q * (180 / pi) - 180"
    by (simp add: field_simps)
  then have h0: "Num (q - pi) * Num (180 / pi) = Num (q * (180 / pi) - 180)"
    by simp
  have "0 \<le> q * (180 / pi)" using q by simp
  moreover have "q * (180 / pi) \<le> 45"
  proof -
    have "q * (180 / pi) \<le> pi / 4 * (180 / pi)"
      using q by (intro mult_right_mono) simp_all
    then show ?thesis by simp
  qed
  ultimately have rng: "0 \<le> q * (180 / pi)" "q * (180 / pi) \<le> 45" by simp_all
  then have neg: "q * (180 / pi) - 180 < 0" by simp
  have "hueAngle (Num ra, Num ga, Num ba) = Num (q * (180 / pi) - 180 + 360)"
    unfolding hueAngle_def vec0.simps vec1.simps vec2.simps oa ob Let_def at rd h0
    using neg by simp
  moreover have "180 \<le> q * (180 / pi) - 180 + 360" "q * (180 / pi) - 180 + 360 \<le> 225"
    using rng by simp_all
  ultimately show ?thesis by blast
qed

lemma eccentricityFactor_third_quadrant:
  fixes hh :: real
  assumes "180 \<le> hh" "hh \<le> 225"
  shows "\<exists>e. eccentricityFactor (Num hh) = Num e \<and> 3.15 \<le> e"
proof -
  define t where "t = (hh - 164.25) / 1"
  define den where "den = t + (237.53 - hh) / 1.2"
  define d2 where "d2 = 1.2 * (hh - 164.25) / (300 - 200) + 1 * (237.53 - hh) / (300 - 200)"
  define f1 where "f1 = (200 + 100 * t / den) / 100"
  define f2 where "f2 = 1.2 * 1 / d2"
  have t: "15.75 \<le> t" "t \<le> 60.75" using assms by (simp_all add: t_def)
  have rest: "0 < 237.53 - hh" using assms by simp
  have den: "0 < den"
    unfolding den_def using t rest by (intro add_pos_pos divide_pos_pos) simp_all
  have d2: "0 < d2"
    unfolding d2_def using assms rest by (intro add_pos_pos divide_pos_pos mult_pos_pos) simp_all
  have tden: "0.247 * den \<le> t"
    using assms by (simp add: den_def t_def field_simps)
  define r where "r = t / den"
  have td: "0.247 \<le> r" unfolding r_def pos_le_divide_eq[OF den] using tden .
  have "f1 = 2 + r" unfolding f1_def r_def by (simp add: add_divide_distrib)
  then have f1: "2.247 \<le> f1" using td by simp
  have "1.404 * d2 \<le> 1.2 * 1" using assms by (simp add: d2_def field_simps)
  then have f2: "1.404 \<le> f2" unfolding f2_def using d2 by (simp add: pos_le_divide_eq)
  have "2.247 * 1.404 \<le> f1 * f2"
    using f1 f2 by (intro mult_mono) simp_all
  then have lo: "3.15 \<le> f1 * f2" by simp
  have hp: "eccentricityHp (Num hh) = Num hh"
    using assms by (simp add: hp_Num)
  have seg: "eccentricitySegmentIndex (Num hh) = Some 2"
    using assms by (simp add: segmentIndex_Num)
  have dnz: "den \<noteq> 0" "d2 \<noteq> 0" using den d2 by simp_all
  have "eccentricityFactor (Num hh) = Num (f1 * f2)"
    unfolding eccentricityFactor_def hp seg Let_def
    using dnz
    by (simp add: ECCENTRICITY_HUE_ANGLES_def ECCENTRICITY_VALUES_def ECCENTRICITY_H_VALUES_def
        strictEq_def f1_def f2_def d2_def den_def t_def)
  with lo show ?thesis by blast
qed

lemma fifth_root_5: "1.379 \<le> (5 :: real) powr 0.2"
proof -
  have "(1.379 :: real) \<le> 5 powr (real 1 / real 5)"
    by (rule powr_rat_lower) (simp_all add: power_divide)
  then show ?thesis by simp
qed

lemma fifth_root_029: "(0.29 :: real) powr 0.2 \<le> 0.781"
proof -
  have "(0.29 :: real) powr (real 1 / real 5) \<le> 0.781"
    by (rule powr_rat_upper) (simp_all add: power_divide)
  then show ?thesis by simp
qed

lemma power_09_lower:
  fixes t :: real
  assumes "4.6 \<le> t"
  shows "3.5 \<le> t powr 0.9"
proof -
  have "(3.5 :: real) \<le> 4.6 powr (real 9 / real 10)"
    by (rule powr_rat_lower) (simp_all add: power_divide)
  then have "(3.5 :: real) \<le> 4.6 powr 0.9" by simp
  also have "\<dots> \<le> t powr 0.9"
    using assms by (intro powr_mono2) simp_all
  finally show ?thesis .
qed

lemma chromaT_lower:
  fixes ra ga ba ncb e :: real
  assumes u: "0.0174 \<le> ga - ra" and v: "0 \<le> ba - ga" "ba - ga \<le> 0.0323"
    and den: "0 < ra + ga + 21 * ba / 20" "ra + ga + 21 * ba / 20 \<le> 37.7"
    and ncb: "0.725 * 1.379 \<le> ncb"
    and nc: "Nc (surround vc) = Num 1" "Ncb vc = Num ncb"
  shows "\<exists>t. chromaT (Num ra, Num ga, Num ba) vc = Num t \<and> 4.6 \<le> t"
proof -
  define av bv dv where "av = ra - 12 * ga / 11 + ba / 11"
    and "bv = (ra + ga - 2 * ba) / 9" and "dv = ra + ga + 21 * ba / 20"
  have av: "av \<le> - 0.0144" using u v by (simp add: av_def field_simps)
  have bv: "bv < 0" using u v by (simp add: bv_def field_simps)
  have ab: "av \<le> bv" using u v by (simp add: av_def bv_def field_simps)
  have a0: "av < 0" using av by simp
  from hueAngle_third_quadrant[OF a0[unfolded av_def] bv[unfolded bv_def] ab[unfolded av_def bv_def]]
  obtain hh where hh: "hueAngle (Num ra, Num ga, Num ba) = Num hh" "180 \<le> hh" "hh \<le> 225"
    by blast
  from eccentricityFactor_third_quadrant[OF hh(2,3)]
  obtain e where e: "eccentricityFactor (Num hh) = Num e" "3.15 \<le> e" by blast
  define sq where "sq = sqrt (av * av + bv * bv)"
  have "0.0144 * 0.0144 \<le> (- av) * (- av)"
    using av by (intro mult_mono) simp_all
  then have "0.0144 * 0.0144 \<le> av * av" by simp
  then have "0.0144 * 0.0144 \<le> av * av + bv * bv"
    by (rule add_increasing2[rotated]) simp
  then have "0.0144\<^sup>2 \<le> av * av + bv * bv"
    unfolding power2_eq_square .
  then have sq: "0.0144 \<le> sq" unfolding sq_def by (rule real_le_rsqrt)
  have nn: "\<not> av * av + bv * bv < 0" by (simp add: not_less)
  have oa: "opponentA (Num ra) (Num ga) (Num ba) = Num av"
    and ob: "opponentB (Num ra) (Num ga) (Num ba) = Num bv"
    by (simp_all add: opponentA_def opponentB_def av_def bv_def)
  have dpos: "0 < dv" "dv \<le> 37.7" using den by (simp_all add: dv_def)
  have dN: "Num ra + Num ga + Num 21 * Num ba / Num 20 = Num dv"
    by (simp add: dv_def)
  define num where "num = 50000 / 13 * 1 * ncb * e * sq"
  have ct: "chromaT (Num ra, Num ga, Num ba) vc = Num (num / dv)"
    unfolding chromaT_def vec0.simps vec1.simps vec2.simps oa ob Let_def hh(1) e(1) nc dN
    using nn dpos by (simp add: num_def sq_def)
  have pos: "0 \<le> ncb" "0 \<le> e" using ncb e by simp_all
  have ne: "0.725 * 1.379 * 3.15 \<le> ncb * e"
    using ncb e by (intro mult_mono) simp_all
  define w where "w = ncb * e * sq"
  have "0.725 * 1.379 * 3.15 * 0.0144 \<le> w"
    unfolding w_def by (rule mult_mono[OF ne sq mult_nonneg_nonneg[OF pos]]) simp
  then have "50000 / 13 * (0.725 * 1.379 * 3.15 * 0.0144) \<le> 50000 / 13 * w"
    by (rule mult_left_mono) simp
  moreover have "174 \<le> 50000 / 13 * (0.725 * 1.379 * 3.15 * 0.0144 :: real)" by simp
  ultimately have "174 \<le> 50000 / 13 * w" by (rule order_trans[rotated])
  moreover have "num = 50000 / 13 * w" by (simp add: num_def w_def)
  ultimately have k: "174 \<le> num" by simp
  have "4.6 * dv \<le> 174" using dpos by simp
  then have "4.6 * dv \<le> num" using k by simp
  then have "4.6 \<le> num / dv" unfolding pos_le_divide_eq[OF dpos(1)] .
  with ct show ?thesis by blast
qed

lemma white_forward_J_100:
  assumes "0 < la" "0 < yb"
  shows "J (forwardTry D65_WHITE_POINT D65_WHITE_POINT
            (makeViewingConditionsTry (Num la) (Num yb) D65_WHITE_POINT sur)) = Num 100"
proof -
  let ?vc = "makeViewingConditionsTry (Num la) (Num yb) D65_WHITE_POINT sur"
  from Aw_D65_pos[OF assms, of sur] obtain aw where aw: "Aw ?vc = Num aw" "0 < aw" by blast
  have A: "achromatic (forwardResponses D65_WHITE_POINT D65_WHITE_POINT ?vc) (Nbb ?vc) = Aw ?vc"
    unfolding forwardResponses_def by (rule makeViewingConditionsTry_Aw[symmetric])
  have cz: "c (surround ?vc) * z ?vc = Num (surroundC sur * (1.48 + sqrt (yb / 100)))"
    using Nbb_Num(4,5)[OF assms(2), of 100] by (simp add: D65_WHITE_POINT_def)
  have q: "Num aw / Num aw = Num 1" using aw(2) by simp
  have "0 < surroundC sur * (1.48 + sqrt (yb / 100))"
    using surround_pos(3)[of sur] assms(2) by (intro mult_pos_pos add_pos_pos) simp_all
  then have p: "powFinite (Num 1) (surroundC sur * (1.48 + sqrt (yb / 100))) = Num 1"
    by simp
  show ?thesis
    unfolding forwardTry_J A lightness_def aw(1) q cz Math_pow.simps p by simp
qed

lemma white_D65_responses:
  "\<exists>ra ga ba.
     forwardResponses D65_WHITE_POINT D65_WHITE_POINT
       (makeViewingConditionsTry (Num 64) (Num 20) D65_WHITE_POINT average)
       = (Num ra, Num ga, Num ba)
     \<and> 0.0174 \<le> ga - ra \<and> 0 \<le> ba - ga \<and> ba - ga \<le> 0.0323
     \<and> 0 < ra + ga + 21 * ba / 20 \<and> ra + ga + 21 * ba / 20 \<le> 37.7
     \<and> 0.1 < ra \<and> 0.1 < ga \<and> 0.1 < ba"
proof -
  define vc where "vc = makeViewingConditionsTry (Num 64) (Num 20) D65_WHITE_POINT average"
  define d fl where "d = adaptationDegree 1 64" and "fl = luminanceFactor 64"
  have d: "D vc = Num d"
    unfolding vc_def d_def using D_Num[of 64 "Num 20" D65_WHITE_POINT average]
    by (simp add: surroundF_def)
  have fl: "Fl vc = Num fl"
    unfolding vc_def fl_def by (rule Fl_Num) simp
  have dr: "0.9118 \<le> d" "d \<le> 0.9141" unfolding d_def by (rule adaptationDegree_64)+
  have flr: "0.6839 \<le> fl" "fl \<le> 0.6841" unfolding fl_def by (rule luminanceFactor_64)+
  from white_cones_64[OF dr]
  obtain lc mc sc where hpe: "multiplyMatrixVec M_HPE (multiplyMatrixVec M_CAT02_INV
            (adaptedCones (Num d) D65_WHITE_POINT
               (multiplyMatrixVec M_CAT02
                  (X D65_WHITE_POINT, Y D65_WHITE_POINT, Z D65_WHITE_POINT))))
          = (Num lc, Num mc, Num sc)"
    and cones: "99.7 \<le> lc" "mc \<le> 100.8" "sc \<le> 100.8"
      "1.00358 * lc \<le> mc" "mc \<le> sc" "sc \<le> 1.00646 * mc"
    by blast
  have nn: "0 \<le> lc" "0 \<le> mc" "0 \<le> sc" "0 \<le> fl" using cones flr by simp_all
  have ps: "0 < lc" "0 < mc" "0 < sc" "0 < fl" using cones flr by simp_all
  define ra ga ba where "ra = compress lc fl" and "ga = compress mc fl" and "ba = compress sc fl"
  have resp: "forwardResponses D65_WHITE_POINT D65_WHITE_POINT vc = (Num ra, Num ga, Num ba)"
    unfolding forwardResponses_def coneResponses_def d fl hpe Let_def vec0.simps vec1.simps
      vec2.simps ra_def ga_def ba_def
    using nn by (simp add: nonlinearAdaptation_Num)
  note w = white_responses_64[OF flr cones, folded ra_def ga_def ba_def]
  have g: "0.1 < ra" "0.1 < ga" "0.1 < ba"
    unfolding ra_def ga_def ba_def
    by (rule compress_gt[OF ps(1,4)], rule compress_gt[OF ps(2,4)], rule compress_gt[OF ps(3,4)])
  from resp w g show ?thesis unfolding vc_def by blast
qed

text \<open>
  Claim C7 (lightness and chroma of the white point). The claim asks that \<open>forward\<close> of the
  white point itself gives \<open>J = 100\<close> and a chroma \<open>C\<close> below 3, as the unit test \<open>should
  produce J~100 for white point under any Yb\<close> does for the D65 white under
  \<open>makeViewingConditions(64, 20, D65)\<close>. At that input \<open>forward\<close> succeeds with \<open>J = 100\<close>
  exactly, but the chroma it returns is above 3: the hue of the adapted white lies between
  180 and 225 degrees, where \<open>eccentricityFactor\<close> returns more than 3.15, which makes
  \<open>t\<close> at least 4.6.
\<close>

theorem forward_white_D65_chroma_above_3:
  "\<exists>vc r cv.
     makeViewingConditions (Num 64) (Num 20) D65_WHITE_POINT average = Inr vc \<and>
     forward D65_WHITE_POINT D65_WHITE_POINT vc = Inr r \<and>
     J r = Num 100 \<and> C r = Num cv \<and> 3 < cv"
proof -
  define vc where "vc = makeViewingConditionsTry (Num 64) (Num 20) D65_WHITE_POINT average"
  define r where "r = forwardTry D65_WHITE_POINT D65_WHITE_POINT vc"
  have ncb: "Ncb vc = Num (0.725 * 5 powr 0.2)"
    unfolding vc_def using Nbb_Num(2)[of 20 100 "Num 64" "Num 95.047" "Num 108.883" average]
    by (simp add: D65_WHITE_POINT_def)
  have nv: "n vc = Num 0.2"
    unfolding vc_def using Nbb_Num(3)[of 20 100 "Num 64" "Num 95.047" "Num 108.883" average]
    by (simp add: D65_WHITE_POINT_def)
  have nc: "Nc (surround vc) = Num 1"
    unfolding vc_def using Nbb_Num(6)[of 20 100 "Num 64" "Num 95.047" "Num 108.883" average]
    by (simp add: D65_WHITE_POINT_def surroundNc_def)
  have j: "J r = Num 100"
    unfolding r_def vc_def by (rule white_forward_J_100) simp_all
  from white_D65_responses obtain ra ga ba where
    resp: "forwardResponses D65_WHITE_POINT D65_WHITE_POINT vc = (Num ra, Num ga, Num ba)"
    and w: "0.0174 \<le> ga - ra" "0 \<le> ba - ga" "ba - ga \<le> 0.0323"
      "0 < ra + ga + 21 * ba / 20" "ra + ga + 21 * ba / 20 \<le> 37.7"
    unfolding vc_def by blast
  have k: "0.725 * 1.379 \<le> 0.725 * (5 :: real) powr 0.2"
    using fifth_root_5 by (rule mult_left_mono) simp
  from chromaT_lower[OF w(1,2,3,4,5) k nc ncb]
  obtain t where t: "chromaT (Num ra, Num ga, Num ba) vc = Num t" "4.6 \<le> t" by blast
  define p9 p2 where "p9 = t powr 0.9" and "p2 = (0.29 :: real) powr 0.2"
  have p9: "3.5 \<le> p9" unfolding p9_def using t(2) by (rule power_09_lower)
  have p2: "p2 \<le> 0.781" unfolding p2_def by (rule fifth_root_029)
  have tpos: "0 < t" using t(2) by simp
  have P9: "Math_pow (Num t) (Num 0.9) = Num p9"
    using tpos by (simp add: p9_def)
  have P2: "Math_pow (Num 0.29) (Num 0.2) = Num p2"
    by (simp add: p2_def)
  have P1: "Math_pow (Num 100 / Num 100) (Num 0.5) = Num 1"
    by simp
  have c: "C r = Num (p9 * 1 * (1.64 - p2))"
    unfolding r_def forwardTry_C resp t(1) chroma_def j[unfolded r_def] nv P9 P2 P1
    by simp
  have "0.859 \<le> 1.64 - p2" using p2 by simp
  then have "3.5 * 0.859 \<le> p9 * (1.64 - p2)"
    using p9 by (intro mult_mono) simp_all
  then have "3 < p9 * 1 * (1.64 - p2)" by simp
  with c j show ?thesis
    unfolding makeViewingConditions_Inr forward_Inr r_def vc_def by blast
qed

section \<open>Black under the viewing conditions built from the white point\<close>






section \<open>The round trip through forward and inverse\<close>

subsection \<open>Cosine and sine of the hue angle\<close>

lemma sqrt_ratio:
  fixes x y :: real
  assumes "x \<noteq> 0"
  shows "sqrt (1 + (y / x)\<^sup>2) = sqrt (x * x + y * y) / \<bar>x\<bar>"
proof -
  have "1 + (y / x)\<^sup>2 = (x * x + y * y) / x\<^sup>2"
    using assms by (simp add: field_simps power2_eq_square)
  then show ?thesis by (simp add: real_sqrt_divide)
qed

lemma radius_pos:
  fixes x y :: real
  assumes "x \<noteq> 0 \<or> y \<noteq> 0"
  shows "0 < sqrt (x * x + y * y)"
proof -
  have "0 < x * x + y * y"
    using assms by (metis add_pos_nonneg add_nonneg_pos zero_le_square not_real_square_gt_zero)
  then show ?thesis by simp
qed

lemma cos_atan2Finite:
  fixes x y :: real
  assumes "x \<noteq> 0 \<or> y \<noteq> 0"
  shows "cos (atan2Finite y x) = x / sqrt (x * x + y * y)"
proof -
  define \<rho> where "\<rho> = sqrt (x * x + y * y)"
  have \<rho>: "0 < \<rho>" unfolding \<rho>_def by (rule radius_pos[OF assms])
  consider "0 < x" | "x < 0" | "x = 0" by linarith
  then show ?thesis
  proof cases
    case 1
    then have "cos (atan2Finite y x) = 1 / (\<rho> / \<bar>x\<bar>)"
      by (simp add: atan2Finite_def cos_arctan sqrt_ratio \<rho>_def)
    then show ?thesis using 1 by (simp add: \<rho>_def)
  next
    case 2
    then have "cos (atan2Finite y x) = - (1 / (\<rho> / \<bar>x\<bar>))"
      by (simp add: atan2Finite_def cos_arctan sqrt_ratio \<rho>_def)
    then show ?thesis using 2 by (simp add: \<rho>_def)
  next
    case 3
    then show ?thesis using assms by (simp add: atan2Finite_def)
  qed
qed

lemma sin_atan2Finite:
  fixes x y :: real
  assumes "x \<noteq> 0 \<or> y \<noteq> 0"
  shows "sin (atan2Finite y x) = y / sqrt (x * x + y * y)"
proof -
  define \<rho> where "\<rho> = sqrt (x * x + y * y)"
  have \<rho>: "0 < \<rho>" unfolding \<rho>_def by (rule radius_pos[OF assms])
  consider "0 < x" | "x < 0" | "x = 0" by linarith
  then show ?thesis
  proof cases
    case 1
    then have "sin (atan2Finite y x) = y / x / (\<rho> / \<bar>x\<bar>)"
      by (simp add: atan2Finite_def sin_arctan sqrt_ratio \<rho>_def)
    then show ?thesis using 1 by (simp add: \<rho>_def)
  next
    case 2
    then have "sin (atan2Finite y x) = - (y / x / (\<rho> / \<bar>x\<bar>))"
      by (simp add: atan2Finite_def sin_arctan sqrt_ratio \<rho>_def)
    then show ?thesis using 2 by (simp add: \<rho>_def)
  next
    case 3
    then have "y \<noteq> 0" using assms by simp
    then consider "0 < y" | "y < 0" by linarith
    then show ?thesis
      using 3 by cases (simp_all add: atan2Finite_def)
  qed
qed

subsection \<open>The inverse transform on the correlates of the forward transform\<close>

lemma inverseTry_responses:
  "inverseTry correlates wp cond =
     (let r = inverseResponses correlates cond;
          rgbHpe =
            (inverseNonlinearAdaptation (vec0 r) (Fl cond),
             inverseNonlinearAdaptation (vec1 r) (Fl cond),
             inverseNonlinearAdaptation (vec2 r) (Fl cond));
          rgc = multiplyMatrixVec M_CAT02 (multiplyMatrixVec M_HPE_INV rgbHpe);
          whiteRgb = multiplyMatrixVec M_CAT02 (X wp, Y wp, Z wp);
          rgb =
            (vec0 rgc / (D cond * Y wp / vec0 whiteRgb + Num 1 - D cond),
             vec1 rgc / (D cond * Y wp / vec1 whiteRgb + Num 1 - D cond),
             vec2 rgc / (D cond * Y wp / vec2 whiteRgb + Num 1 - D cond));
          xyzVec = multiplyMatrixVec M_CAT02_INV rgb
      in \<lparr>X = vec0 xyzVec, Y = vec1 xyzVec, Z = vec2 xyzVec\<rparr>)"
  by (simp add: inverseTry_def inverseResponses_def inverseGamma_def inverseP2_def inverseT_def
      inverseAchromatic_def Let_def)

lemma hueAngle_trig:
  fixes ra ga ba :: real
  assumes "ra - 12 * ga / 11 + ba / 11 \<noteq> 0 \<or> (ra + ga - 2 * ba) / 9 \<noteq> 0"
  shows "\<exists>hh. hueAngle (Num ra, Num ga, Num ba) = Num hh
          \<and> Math_cos (Num hh * DEG_TO_RAD)
              = Num ((ra - 12 * ga / 11 + ba / 11) /
                     sqrt ((ra - 12 * ga / 11 + ba / 11) * (ra - 12 * ga / 11 + ba / 11)
                           + (ra + ga - 2 * ba) / 9 * ((ra + ga - 2 * ba) / 9)))
          \<and> Math_sin (Num hh * DEG_TO_RAD)
              = Num ((ra + ga - 2 * ba) / 9 /
                     sqrt ((ra - 12 * ga / 11 + ba / 11) * (ra - 12 * ga / 11 + ba / 11)
                           + (ra + ga - 2 * ba) / 9 * ((ra + ga - 2 * ba) / 9)))"
proof -
  define av bv where "av = ra - 12 * ga / 11 + ba / 11" and "bv = (ra + ga - 2 * ba) / 9"
  define \<theta> where "\<theta> = atan2Finite bv av"
  have nz: "av \<noteq> 0 \<or> bv \<noteq> 0" using assms by (simp add: av_def bv_def)
  have oa: "opponentA (Num ra) (Num ga) (Num ba) = Num av"
    and ob: "opponentB (Num ra) (Num ga) (Num ba) = Num bv"
    by (simp_all add: opponentA_def opponentB_def av_def bv_def)
  have at: "Math_atan2 (Num bv) (Num av) = Num \<theta>" by (simp add: \<theta>_def)
  have rd: "RAD_TO_DEG = Num (180 / pi)" by (simp add: RAD_TO_DEG_def Math_PI_def)
  have dr: "DEG_TO_RAD = Num (pi / 180)" by (simp add: DEG_TO_RAD_def Math_PI_def)
  define hh where "hh = (if \<theta> * (180 / pi) < 0 then \<theta> * (180 / pi) + 360 else \<theta> * (180 / pi))"
  have hue: "hueAngle (Num ra, Num ga, Num ba) = Num hh"
    unfolding hueAngle_def vec0.simps vec1.simps vec2.simps oa ob Let_def at rd
    by (simp add: hh_def)
  define \<phi> where "\<phi> = hh * (pi / 180)"
  have "\<phi> = \<theta> \<or> \<phi> = \<theta> + 2 * pi"
    by (simp add: \<phi>_def hh_def field_simps)
  then have "cos \<phi> = cos \<theta> \<and> sin \<phi> = sin \<theta>"
    by auto
  then have cs: "cos \<phi> = cos \<theta>" "sin \<phi> = sin \<theta>"
    by simp_all
  have m: "Num hh * Num (pi / 180) = Num \<phi>" by (simp add: \<phi>_def)
  have "Math_cos (Num hh * DEG_TO_RAD) = Num (av / sqrt (av * av + bv * bv))"
    unfolding dr m Math_cos.simps cs \<theta>_def cos_atan2Finite[OF nz] ..
  moreover have "Math_sin (Num hh * DEG_TO_RAD) = Num (bv / sqrt (av * av + bv * bv))"
    unfolding dr m Math_sin.simps cs \<theta>_def sin_atan2Finite[OF nz] ..
  ultimately show ?thesis using hue unfolding av_def bv_def by blast
qed

lemma gamma_algebra:
  fixes \<rho> dv p1 p2 av bv t :: real
  assumes "0 < \<rho>" "0 < dv" "0 < p1" "0 < p2"
    and lin: "23 * dv + 11 * av + 108 * bv = 23 * p2"
    and t: "t = p1 * \<rho> / dv"
  shows "23 * p1 + 11 * t * (av / \<rho>) + 108 * t * (bv / \<rho>) \<noteq> 0"
    and "23 * (p2 + 0.305) * t / (23 * p1 + 11 * t * (av / \<rho>) + 108 * t * (bv / \<rho>))
           = \<rho> * ((p2 + 0.305) / p2)"
proof -
  define q where "q = 23 * p1 * p2 / dv"
  have q: "0 < q" unfolding q_def using assms by simp
  have den: "23 * p1 + 11 * t * (av / \<rho>) + 108 * t * (bv / \<rho>) = q"
  proof -
    have "23 * p1 + 11 * t * (av / \<rho>) + 108 * t * (bv / \<rho>)
        = p1 * (23 * dv + 11 * av + 108 * bv) / dv"
      unfolding t using assms(1,2) by (simp add: field_simps)
    also have "\<dots> = q" unfolding lin q_def by simp
    finally show ?thesis .
  qed
  show "23 * p1 + 11 * t * (av / \<rho>) + 108 * t * (bv / \<rho>) \<noteq> 0"
    unfolding den using q by simp
  have "23 * (p2 + 0.305) * t / q = \<rho> * ((p2 + 0.305) / p2)"
    unfolding q_def t using assms(1-4) by (simp add: field_simps)
  then show "23 * (p2 + 0.305) * t / (23 * p1 + 11 * t * (av / \<rho>) + 108 * t * (bv / \<rho>))
           = \<rho> * ((p2 + 0.305) / p2)"
    unfolding den .
qed

lemma recover_achromatic:
  fixes av aw ex :: real
  assumes "0 < av" "0 < aw" "0 < ex"
  shows "aw * ((av / aw) powr ex) powr (1 / ex) = av"
  using assms by (simp add: powr_powr)

lemma recover_t:
  fixes t sj kk :: real
  assumes "0 < t" "0 < sj" "0 < kk"
  shows "(t powr 0.9 * sj * kk / (sj * kk)) powr (1 / 0.9) = t"
  using assms by (simp add: powr_powr)

lemma inverse_responses_general:
  fixes ra ga ba nbb ncb nc cc zz nn aw e :: real
  assumes resp: "forwardResponses xyz wp cond = (Num ra, Num ga, Num ba)"
    and fields: "Nbb cond = Num nbb" "Ncb cond = Num ncb" "Nc (surround cond) = Num nc"
      "c (surround cond) = Num cc" "z cond = Num zz" "n cond = Num nn" "Aw cond = Num aw"
    and pos: "0 < nbb" "0 < ncb" "0 < nc" "0 < cc" "0 < zz" "0 \<le> nn" "0 < aw"
    and A: "0.305 < 2 * ra + ga + ba / 20"
    and d: "0 < ra + ga + 21 * ba / 20"
    and ab: "ra - 12 * ga / 11 + ba / 11 \<noteq> 0 \<or> (ra + ga - 2 * ba) / 9 \<noteq> 0"
    and ecc: "eccentricityFactor (h (forwardTry xyz wp cond)) = Num e" "0 < e"
  shows "\<exists>\<kappa>. \<kappa> = (2 * ra + ga + ba / 20 + 0.305) / (2 * ra + ga + ba / 20) \<and>
      inverseResponses
        \<lparr>J = J (forwardTry xyz wp cond), C = C (forwardTry xyz wp cond),
         h = h (forwardTry xyz wp cond)\<rparr> cond
      = (recoverRa (Num (2 * ra + ga + ba / 20))
           (Num (\<kappa> * (ra - 12 * ga / 11 + ba / 11))) (Num (\<kappa> * ((ra + ga - 2 * ba) / 9))),
         recoverGa (Num (2 * ra + ga + ba / 20))
           (Num (\<kappa> * (ra - 12 * ga / 11 + ba / 11))) (Num (\<kappa> * ((ra + ga - 2 * ba) / 9))),
         recoverBa (Num (2 * ra + ga + ba / 20))
           (Num (\<kappa> * (ra - 12 * ga / 11 + ba / 11))) (Num (\<kappa> * ((ra + ga - 2 * ba) / 9))))"
proof -
  let ?r = "forwardTry xyz wp cond"
  define av bv dv p2 where "av = ra - 12 * ga / 11 + ba / 11"
    and "bv = (ra + ga - 2 * ba) / 9" and "dv = ra + ga + 21 * ba / 20"
    and "p2 = 2 * ra + ga + ba / 20"
  define \<rho> where "\<rho> = sqrt (av * av + bv * bv)"
  define \<kappa> where "\<kappa> = (p2 + 0.305) / p2"
  define Av where "Av = (p2 - 0.305) * nbb"
  define ex where "ex = cc * zz"
  define jj where "jj = (Av / aw) powr ex"
  define p1 where "p1 = 50000 / 13 * nc * ncb * e"
  define t where "t = p1 * \<rho> / dv"
  define sj where "sj = jj powr 0.5"
  define kk where "kk = 1.64 - (0.29 :: real) powr nn"
  have nz: "av \<noteq> 0 \<or> bv \<noteq> 0" using ab by (simp add: av_def bv_def)
  have \<rho>: "0 < \<rho>" unfolding \<rho>_def by (rule radius_pos[OF nz])
  have dv: "0 < dv" using d by (simp add: dv_def)
  have p2: "0 < p2" "0.305 < p2" using A by (simp_all add: p2_def)
  have Av: "0 < Av" unfolding Av_def using p2 pos by simp
  have ex: "0 < ex" unfolding ex_def using pos by simp
  have q: "0 < Av / aw" using Av pos by simp
  have jj: "0 < jj" unfolding jj_def using Av pos(7) by simp
  have sj: "0 < sj" unfolding sj_def using jj by simp
  have p1: "0 < p1" unfolding p1_def using pos ecc(2) by simp
  have t: "0 < t" unfolding t_def using p1 \<rho> dv by simp
  have "(0.29 :: real) powr nn \<le> 0.29 powr 0"
    using pos(6) by (intro powr_mono') simp_all
  then have kk: "0 < kk" unfolding kk_def by simp
  have lin: "23 * dv + 11 * av + 108 * bv = 23 * p2"
    by (simp add: dv_def av_def bv_def p2_def field_simps)
  have ach: "achromatic (Num ra, Num ga, Num ba) (Num nbb) = Num Av"
    by (simp add: achromatic_def Av_def p2_def)
  have Q: "Num Av / Num aw = Num (Av / aw)" using pos(7) by simp
  have E: "Num cc * Num zz = Num ex" by (simp add: ex_def)
  have PW: "Math_pow (Num (Av / aw)) (Num ex) = Num jj" using q by (simp add: jj_def)
  have Jr: "J ?r = Num (100 * jj)"
    unfolding forwardTry_J resp fields ach lightness_def Q E PW by simp
  have Jq: "J ?r / Num 100 = Num jj" unfolding Jr by simp
  from hueAngle_trig[OF ab] obtain hh where
    hue: "hueAngle (Num ra, Num ga, Num ba) = Num hh"
    and cosH: "Math_cos (Num hh * DEG_TO_RAD) = Num (av / \<rho>)"
    and sinH: "Math_sin (Num hh * DEG_TO_RAD) = Num (bv / \<rho>)"
    unfolding av_def bv_def \<rho>_def by blast
  have hr: "h ?r = Num hh" unfolding forwardTry_h resp hue ..
  have et: "eccentricityFactor (Num hh) = Num e" using ecc(1) unfolding hr .
  have oa: "opponentA (Num ra) (Num ga) (Num ba) = Num av"
    and ob: "opponentB (Num ra) (Num ga) (Num ba) = Num bv"
    by (simp_all add: opponentA_def opponentB_def av_def bv_def)
  have sq: "Math_sqrt (Num av * Num av + Num bv * Num bv) = Num \<rho>"
    by (simp add: \<rho>_def not_less)
  have dN: "Num ra + Num ga + Num 21 * Num ba / Num 20 = Num dv"
    by (simp add: dv_def)
  have P1: "Num 50000 / Num 13 * Num nc * Num ncb * Num e = Num p1"
    by (simp add: p1_def)
  have ct: "chromaT (Num ra, Num ga, Num ba) cond = Num t"
    unfolding chromaT_def vec0.simps vec1.simps vec2.simps oa ob Let_def hue et fields sq dN P1
    using dv by (simp add: t_def)
  have K: "Num 1.64 - Math_pow (Num 0.29) (Num nn) = Num kk"
    by (simp add: kk_def)
  have SJ: "Math_pow (Num jj) (Num 0.5) = Num sj"
    using jj by (simp add: sj_def)
  have Cr: "C ?r = Num (t powr 0.9 * sj * kk)"
    unfolding forwardTry_C resp ct chroma_def Jq fields K SJ
    using t by simp
  define cor where "cor = \<lparr>J = J ?r, C = C ?r, h = h ?r\<rparr>"
  have cJ: "J cor / Num 100 = Num jj" unfolding cor_def CorrelatesJCh.simps by (rule Jq)
  have cC: "C cor = Num (t powr 0.9 * sj * kk)" unfolding cor_def CorrelatesJCh.simps by (rule Cr)
  have ch: "h cor = Num hh" unfolding cor_def CorrelatesJCh.simps by (rule hr)
  have EX: "Num 1 / Num ex = Num (1 / ex)"
    using ex by simp
  have PA: "Math_pow (Num jj) (Num (1 / ex)) = Num (jj powr (1 / ex))"
    using jj by simp
  have "aw * jj powr (1 / ex) = Av"
    unfolding jj_def by (rule recover_achromatic[OF Av pos(7) ex])
  then have iA: "inverseAchromatic cor cond = Num Av"
    unfolding inverseAchromatic_def fields cJ E EX PA
    by simp
  have "Av / nbb + 0.305 = p2" unfolding Av_def using pos(1) by simp
  then have iP: "inverseP2 cor cond = Num p2"
    unfolding inverseP2_def iA fields using pos(1) by simp
  have skz: "sj * kk \<noteq> 0" using sj kk by simp
  define w where "w = t powr 0.9 * sj * kk / (sj * kk)"
  have w: "w powr (1 / 0.9) = t"
    unfolding w_def by (rule recover_t[OF t sj kk])
  have wpos: "0 < w"
    unfolding w_def using t sj kk by simp
  have W: "Num (t powr 0.9 * sj * kk) / (Num sj * Num kk) = Num w"
    using skz by (simp add: w_def)
  have W9: "Num 1 / Num 0.9 = Num (1 / 0.9)" by simp
  have "inverseT cor cond = Math_pow (Num w) (Num (1 / 0.9))"
    unfolding inverseT_def fields cJ SJ K cC W W9 ..
  also have "\<dots> = Num (w powr (1 / 0.9))"
    unfolding Math_pow.simps by (rule powFinite_pos[OF wpos])
  finally have iT: "inverseT cor cond = Num t" unfolding w .
  note ga = gamma_algebra[OF \<rho> dv p1 p2(1) lin t_def]
  have G: "Num 23 * (Num p2 + Num 0.305) * Num t /
           (Num 23 * Num p1 + Num 11 * Num t * Num (av / \<rho>) + Num 108 * Num t * Num (bv / \<rho>))
         = Num (23 * (p2 + 0.305) * t /
                (23 * p1 + 11 * t * (av / \<rho>) + 108 * t * (bv / \<rho>)))"
    using ga(1) by simp
  have iG: "inverseGamma cor cond = Num (\<rho> * \<kappa>)"
    unfolding inverseGamma_def Let_def iT iP ch et cosH sinH fields P1 G ga(2) \<kappa>_def ..
  have a': "Num (\<rho> * \<kappa>) * Num (av / \<rho>) = Num (\<kappa> * av)"
    and b': "Num (\<rho> * \<kappa>) * Num (bv / \<rho>) = Num (\<kappa> * bv)"
    using \<rho> by simp_all
  have "inverseResponses cor cond
      = (recoverRa (Num p2) (Num (\<kappa> * av)) (Num (\<kappa> * bv)),
         recoverGa (Num p2) (Num (\<kappa> * av)) (Num (\<kappa> * bv)),
         recoverBa (Num p2) (Num (\<kappa> * av)) (Num (\<kappa> * bv)))"
    unfolding inverseResponses_def Let_def iP iG ch cosH sinH a' b' ..
  then show ?thesis
    unfolding \<kappa>_def p2_def av_def bv_def cor_def by blast
qed

lemma recover_Num:
  "recoverRa (Num p) (Num x) (Num y) = Num ((460 * p + 451 * x + 288 * y) / 1403)"
  "recoverGa (Num p) (Num x) (Num y) = Num ((460 * p - 891 * x - 261 * y) / 1403)"
  "recoverBa (Num p) (Num x) (Num y) = Num ((460 * p - 220 * x - 6300 * y) / 1403)"
  by (simp_all add: recoverRa_def recoverGa_def recoverBa_def)

subsection \<open>The colour (5, 5, 40) of the unit tests\<close>

lemma hueAngle_lower_left:
  fixes ra ga ba :: real
  assumes a: "ra - 12 * ga / 11 + ba / 11 < 0"
    and b: "(ra + ga - 2 * ba) / 9 < 0"
  shows "\<exists>hh. hueAngle (Num ra, Num ga, Num ba) = Num hh \<and> 180 \<le> hh \<and> hh \<le> 270"
proof -
  define av bv where "av = ra - 12 * ga / 11 + ba / 11" and "bv = (ra + ga - 2 * ba) / 9"
  have av: "av < 0" and bv: "bv < 0"
    using a b by (simp_all add: av_def bv_def)
  define q where "q = arctan (bv / av)"
  have "0 \<le> bv / av" using av bv by (simp add: divide_nonpos_neg)
  then have q: "0 \<le> q" "q \<le> pi / 2"
    unfolding q_def using arctan_ubound[of "bv / av"] by (simp_all add: arctan_monotone')
  have oa: "opponentA (Num ra) (Num ga) (Num ba) = Num av"
    and ob: "opponentB (Num ra) (Num ga) (Num ba) = Num bv"
    by (simp_all add: opponentA_def opponentB_def av_def bv_def)
  have at: "Math_atan2 (Num bv) (Num av) = Num (q - pi)"
    using av bv by (simp add: atan2Finite_def q_def)
  have rd: "RAD_TO_DEG = Num (180 / pi)"
    by (simp add: RAD_TO_DEG_def Math_PI_def)
  have "(q - pi) * (180 / pi) = q * (180 / pi) - 180"
    by (simp add: field_simps)
  then have h0: "Num (q - pi) * Num (180 / pi) = Num (q * (180 / pi) - 180)"
    by simp
  have "0 \<le> q * (180 / pi)" using q by simp
  moreover have "q * (180 / pi) \<le> 90"
  proof -
    have "q * (180 / pi) \<le> pi / 2 * (180 / pi)"
      using q by (intro mult_right_mono) simp_all
    then show ?thesis by simp
  qed
  ultimately have rng: "0 \<le> q * (180 / pi)" "q * (180 / pi) \<le> 90" by simp_all
  then have neg: "q * (180 / pi) - 180 < 0" by simp
  have "hueAngle (Num ra, Num ga, Num ba) = Num (q * (180 / pi) - 180 + 360)"
    unfolding hueAngle_def vec0.simps vec1.simps vec2.simps oa ob Let_def at rd h0
    using neg by simp
  moreover have "180 \<le> q * (180 / pi) - 180 + 360" "q * (180 / pi) - 180 + 360 \<le> 270"
    using rng by simp_all
  ultimately show ?thesis by blast
qed

lemma eccentricityFactor_positive:
  fixes hh :: real
  assumes "180 \<le> hh" "hh \<le> 270"
  shows "\<exists>e. eccentricityFactor (Num hh) = Num e \<and> 0 < e"
proof (cases "hh < 237.53")
  case True
  define t where "t = (hh - 164.25) / 1"
  define den where "den = t + (237.53 - hh) / 1.2"
  define d2 where "d2 = 1.2 * (hh - 164.25) / (300 - 200) + 1 * (237.53 - hh) / (300 - 200)"
  define f1 where "f1 = (200 + 100 * t / den) / 100"
  define f2 where "f2 = 1.2 * 1 / d2"
  have t: "0 < t" using assms by (simp add: t_def)
  have rest: "0 < 237.53 - hh" using True by simp
  have den: "0 < den"
    unfolding den_def using t rest by (intro add_pos_pos divide_pos_pos) simp_all
  have d2: "0 < d2"
    unfolding d2_def using assms rest by (intro add_pos_pos divide_pos_pos mult_pos_pos) simp_all
  have "0 < 100 * t / den" using t den by simp
  then have f1: "0 < f1" unfolding f1_def by simp
  have f2: "0 < f2" unfolding f2_def using d2 by simp
  have pos: "0 < f1 * f2" using f1 f2 by simp
  have hp: "eccentricityHp (Num hh) = Num hh"
    using assms by (simp add: hp_Num)
  have seg: "eccentricitySegmentIndex (Num hh) = Some 2"
    using assms True by (simp add: segmentIndex_Num)
  have dnz: "den \<noteq> 0" "d2 \<noteq> 0" using den d2 by simp_all
  have "eccentricityFactor (Num hh) = Num (f1 * f2)"
    unfolding eccentricityFactor_def hp seg Let_def
    using dnz
    by (simp add: ECCENTRICITY_HUE_ANGLES_def ECCENTRICITY_VALUES_def ECCENTRICITY_H_VALUES_def
        strictEq_def f1_def f2_def d2_def den_def t_def)
  with pos show ?thesis by blast
next
  case False
  define t where "t = (hh - 237.53) / 1.2"
  define den where "den = t + (380.14 - hh) / 0.8"
  define d2 where "d2 = 0.8 * (hh - 237.53) / (400 - 300) + 1.2 * (380.14 - hh) / (400 - 300)"
  define f1 where "f1 = (300 + 100 * t / den) / 100"
  define f2 where "f2 = 0.8 * 1.2 / d2"
  have t: "0 \<le> t" using False by (simp add: t_def)
  have rest: "0 < 380.14 - hh" using assms by simp
  have den: "0 < den"
    unfolding den_def using t rest by (intro add_nonneg_pos divide_pos_pos) simp_all
  have d2: "0 < d2"
    unfolding d2_def using False rest
    by (intro add_nonneg_pos divide_pos_pos divide_nonneg_pos mult_pos_pos mult_nonneg_nonneg)
      simp_all
  have "0 \<le> 100 * t / den" using t den by simp
  then have f1: "0 < f1" unfolding f1_def by simp
  have f2: "0 < f2" unfolding f2_def using d2 by simp
  have pos: "0 < f1 * f2" using f1 f2 by simp
  have hp: "eccentricityHp (Num hh) = Num hh"
    using assms by (simp add: hp_Num)
  have seg: "eccentricitySegmentIndex (Num hh) = Some 3"
    using assms False by (simp add: segmentIndex_Num)
  have dnz: "den \<noteq> 0" "d2 \<noteq> 0" using den d2 by simp_all
  have "eccentricityFactor (Num hh) = Num (f1 * f2)"
    unfolding eccentricityFactor_def hp seg Let_def
    using dnz
    by (simp add: ECCENTRICITY_HUE_ANGLES_def ECCENTRICITY_VALUES_def ECCENTRICITY_H_VALUES_def
        strictEq_def f1_def f2_def d2_def den_def t_def)
  with pos show ?thesis by blast
qed

lemma inverseNonlinearAdaptation_Num:
  fixes r fl :: real
  assumes "0.1 < r" "r < 400" "0 < fl"
  shows "inverseNonlinearAdaptation (Num r) (Num fl) = Num (decompress r fl)"
proof -
  define p where "p = 27.13 * (r - 0.1) / (400 - (r - 0.1))"
  have den: "0 < 400 - (r - 0.1)" using assms by simp
  have p: "0 < p" unfolding p_def using assms den by (intro divide_pos_pos mult_pos_pos) simp_all
  have v: "Num r - POST_ADAPTATION_OFFSET = Num (r - 0.1)"
    by (simp add: POST_ADAPTATION_OFFSET_def)
  have s: "Num 0 \<le> Num (r - 0.1)" using assms by simp
  have a: "Math_abs (Num (r - 0.1)) = Num (r - 0.1)" using assms by simp
  have P: "CONE_RESPONSE_OFFSET * Num (r - 0.1) / (CONE_RESPONSE_SCALE - Num (r - 0.1)) = Num p"
    using den by (simp add: CONE_RESPONSE_OFFSET_def CONE_RESPONSE_SCALE_def p_def)
  have E: "Num 1 / CONE_RESPONSE_EXPONENT = Num (1 / 0.42)"
    by (simp add: CONE_RESPONSE_EXPONENT_def)
  have W: "Math_pow (Num p) (Num (1 / 0.42)) = Num (p powr (1 / 0.42))"
    unfolding Math_pow.simps by (rule powFinite_pos[OF p])
  have F: "Num 1 * (Num 100 / Num fl) * Num (p powr (1 / 0.42)) = Num (100 / fl * p powr (1 / 0.42))"
    using assms by simp
  have "inverseNonlinearAdaptation (Num r) (Num fl) = Num (100 / fl * p powr (1 / 0.42))"
    unfolding inverseNonlinearAdaptation_def Let_def v if_P[OF s] a P E W F ..
  then show ?thesis unfolding decompress_def p_def .
qed

lemma blue_cones:
  fixes d :: real
  assumes "0.9118 \<le> d" "d \<le> 0.9141"
  defines "rc \<equiv> (d * 100 / 94.9278424 + 1 - d) * (- 0.684)"
    and "gc \<equiv> (d * 100 / 103.5391171 + 1 - d) * 5.2135"
    and "bc \<equiv> (d * 100 / 108.7206832 + 1 - d) * 39.419"
  shows "2.067 \<le> 0.38971 * (1.096124 * rc + - 0.278869 * gc + 0.182745 * bc)
           + 0.68898 * (0.454369 * rc + 0.473533 * gc + 0.072098 * bc)
           + - 0.07868 * (- 0.009628 * rc + - 0.005698 * gc + 1.015326 * bc)"
    and "0.38971 * (1.096124 * rc + - 0.278869 * gc + 0.182745 * bc)
           + 0.68898 * (0.454369 * rc + 0.473533 * gc + 0.072098 * bc)
           + - 0.07868 * (- 0.009628 * rc + - 0.005698 * gc + 1.015326 * bc) \<le> 2.068"
    and "6.251 \<le> - 0.22981 * (1.096124 * rc + - 0.278869 * gc + 0.182745 * bc)
           + 1.18340 * (0.454369 * rc + 0.473533 * gc + 0.072098 * bc)
           + 0.04641 * (- 0.009628 * rc + - 0.005698 * gc + 1.015326 * bc)"
    and "- 0.22981 * (1.096124 * rc + - 0.278869 * gc + 0.182745 * bc)
           + 1.18340 * (0.454369 * rc + 0.473533 * gc + 0.072098 * bc)
           + 0.04641 * (- 0.009628 * rc + - 0.005698 * gc + 1.015326 * bc) \<le> 6.253"
    and "37.066 \<le> - 0.009628 * rc + - 0.005698 * gc + 1.015326 * bc"
    and "- 0.009628 * rc + - 0.005698 * gc + 1.015326 * bc \<le> 37.075"
  unfolding rc_def gc_def bc_def
  using assms by (simp_all add: algebra_simps)

lemma blue_powers:
  fixes fl lc mc sc :: real
  assumes fl: "0.6839 \<le> fl" "fl \<le> 0.6841"
    and "2.067 \<le> lc" "lc \<le> 2.068" "6.251 \<le> mc" "mc \<le> 6.253"
      "37.066 \<le> sc" "sc \<le> 37.075"
  shows "0.1671 \<le> (fl * lc / 100) powr 0.42" "(fl * lc / 100) powr 0.42 \<le> 0.1673"
    and "0.2660 \<le> (fl * mc / 100) powr 0.42" "(fl * mc / 100) powr 0.42 \<le> 0.2662"
    and "0.5618 \<le> (fl * sc / 100) powr 0.42" "(fl * sc / 100) powr 0.42 \<le> 0.5621"
proof -
  have b: "\<And>v lo hi cl ch :: real. lo \<le> v \<Longrightarrow> v \<le> hi \<Longrightarrow> 0 < lo \<Longrightarrow> 0 < cl \<Longrightarrow> 0 < ch
      \<Longrightarrow> cl ^ 50 \<le> (0.6839 * lo / 100) ^ 21 \<Longrightarrow> (0.6841 * hi / 100) ^ 21 \<le> ch ^ 50
      \<Longrightarrow> cl \<le> (fl * v / 100) powr 0.42 \<and> (fl * v / 100) powr 0.42 \<le> ch"
  proof -
    fix v lo hi cl ch :: real
    assume v: "lo \<le> v" "v \<le> hi" "0 < lo" and c: "0 < cl" "0 < ch"
      and pl: "cl ^ 50 \<le> (0.6839 * lo / 100) ^ 21" and ph: "(0.6841 * hi / 100) ^ 21 \<le> ch ^ 50"
    have xl: "0.6839 * lo / 100 \<le> fl * v / 100"
      using fl v by (intro divide_right_mono mult_mono) simp_all
    have xh: "fl * v / 100 \<le> 0.6841 * hi / 100"
      using fl v by (intro divide_right_mono mult_mono) simp_all
    have xp: "0 < 0.6839 * lo / 100" using v by simp
    have xp2: "0 < 0.6841 * hi / 100" using v by simp
    have "cl \<le> (0.6839 * lo / 100) powr (real 21 / real 50)"
      using c(1) xp _ pl by (rule powr_rat_lower) simp
    also have "\<dots> \<le> (fl * v / 100) powr (real 21 / real 50)"
      using xl xp by (intro powr_mono2) simp_all
    finally have 1: "cl \<le> (fl * v / 100) powr 0.42" by simp
    have "(fl * v / 100) powr (real 21 / real 50) \<le> (0.6841 * hi / 100) powr (real 21 / real 50)"
      using xh xl xp by (intro powr_mono2) simp_all
    also have "\<dots> \<le> ch"
      using c(2) xp2 _ ph by (rule powr_rat_upper) simp
    finally have 2: "(fl * v / 100) powr 0.42 \<le> ch" by simp
    from 1 2 show "cl \<le> (fl * v / 100) powr 0.42 \<and> (fl * v / 100) powr 0.42 \<le> ch" ..
  qed
  have "0.1671 \<le> (fl * lc / 100) powr 0.42 \<and> (fl * lc / 100) powr 0.42 \<le> 0.1673"
    by (rule b[OF assms(3,4)]) (simp_all add: power_divide)
  moreover have "0.2660 \<le> (fl * mc / 100) powr 0.42 \<and> (fl * mc / 100) powr 0.42 \<le> 0.2662"
    by (rule b[OF assms(5,6)]) (simp_all add: power_divide)
  moreover have "0.5618 \<le> (fl * sc / 100) powr 0.42 \<and> (fl * sc / 100) powr 0.42 \<le> 0.5621"
    by (rule b[OF assms(7,8)]) (simp_all add: power_divide)
  ultimately show "0.1671 \<le> (fl * lc / 100) powr 0.42" "(fl * lc / 100) powr 0.42 \<le> 0.1673"
    and "0.2660 \<le> (fl * mc / 100) powr 0.42" "(fl * mc / 100) powr 0.42 \<le> 0.2662"
    and "0.5618 \<le> (fl * sc / 100) powr 0.42" "(fl * sc / 100) powr 0.42 \<le> 0.5621"
    by simp_all
qed

lemma compress_between:
  fixes p lo hi :: real
  assumes "0 < p" "(lo - 0.1) * (p + 27.13) \<le> 400 * p" "400 * p \<le> (hi - 0.1) * (p + 27.13)"
  shows "lo \<le> 400 * p / (p + 27.13) + 0.1" "400 * p / (p + 27.13) + 0.1 \<le> hi"
proof -
  have pos: "0 < p + 27.13" using assms(1) by simp
  have "lo - 0.1 \<le> 400 * p / (p + 27.13)"
    unfolding pos_le_divide_eq[OF pos] by (rule assms(2))
  then show "lo \<le> 400 * p / (p + 27.13) + 0.1" by simp
  have "400 * p / (p + 27.13) \<le> hi - 0.1"
    unfolding pos_divide_le_eq[OF pos] by (rule assms(3))
  then show "400 * p / (p + 27.13) + 0.1 \<le> hi" by simp
qed

lemma blue_compress:
  fixes fl lc mc sc :: real
  assumes fl: "0.6839 \<le> fl" "fl \<le> 0.6841"
    and c: "2.067 \<le> lc" "lc \<le> 2.068" "6.251 \<le> mc" "mc \<le> 6.253"
      "37.066 \<le> sc" "sc \<le> 37.075"
  shows "2.548 \<le> compress lc fl" "compress lc fl \<le> 2.552"
    and "3.983 \<le> compress mc fl" "compress mc fl \<le> 3.987"
    and "8.214 \<le> compress sc fl" "compress sc fl \<le> 8.221"
proof -
  note p = blue_powers[OF fl c]
  define pl pm ps where "pl = (fl * lc / 100) powr 0.42"
    and "pm = (fl * mc / 100) powr 0.42" and "ps = (fl * sc / 100) powr 0.42"
  note q = p[folded pl_def pm_def ps_def]
  have pos: "0 < pl" "0 < pm" "0 < ps" using q by simp_all
  have "(2.548 - 0.1) * (pl + 27.13) \<le> 400 * pl" "400 * pl \<le> (2.552 - 0.1) * (pl + 27.13)"
    using q(1,2) by (simp_all add: algebra_simps)
  note l = compress_between[OF pos(1) this]
  have "(3.983 - 0.1) * (pm + 27.13) \<le> 400 * pm" "400 * pm \<le> (3.987 - 0.1) * (pm + 27.13)"
    using q(3,4) by (simp_all add: algebra_simps)
  note m = compress_between[OF pos(2) this]
  have "(8.214 - 0.1) * (ps + 27.13) \<le> 400 * ps" "400 * ps \<le> (8.221 - 0.1) * (ps + 27.13)"
    using q(5,6) by (simp_all add: algebra_simps)
  note s = compress_between[OF pos(3) this]
  from l m s show "2.548 \<le> compress lc fl" "compress lc fl \<le> 2.552"
    and "3.983 \<le> compress mc fl" "compress mc fl \<le> 3.987"
    and "8.214 \<le> compress sc fl" "compress sc fl \<le> 8.221"
    by (simp_all add: compress_def Let_def pl_def pm_def ps_def)
qed

lemma blue_recovered:
  fixes ra ga ba :: real
  assumes r: "2.548 \<le> ra" "ra \<le> 2.552" "3.983 \<le> ga" "ga \<le> 3.987"
      "8.214 \<le> ba" "ba \<le> 8.221"
  defines "p2 \<equiv> 2 * ra + ga + ba / 20"
    and "av \<equiv> ra - 12 * ga / 11 + ba / 11"
    and "bv \<equiv> (ra + ga - 2 * ba) / 9"
  defines "\<kappa> \<equiv> (p2 + 0.305) / p2"
  shows "2.52 \<le> (460 * p2 + 451 * (\<kappa> * av) + 288 * (\<kappa> * bv)) / 1403"
    and "(460 * p2 + 451 * (\<kappa> * av) + 288 * (\<kappa> * bv)) / 1403 \<le> 2.54"
    and "4.00 \<le> (460 * p2 - 891 * (\<kappa> * av) - 261 * (\<kappa> * bv)) / 1403"
    and "(460 * p2 - 891 * (\<kappa> * av) - 261 * (\<kappa> * bv)) / 1403 \<le> 4.02"
    and "8.37 \<le> (460 * p2 - 220 * (\<kappa> * av) - 6300 * (\<kappa> * bv)) / 1403"
    and "(460 * p2 - 220 * (\<kappa> * av) - 6300 * (\<kappa> * bv)) / 1403 \<le> 8.40"
proof -
  define u w where "u = - av" and "w = - bv"
  have p2: "9.4897 \<le> p2" "p2 \<le> 9.5021" using r by (simp_all add: p2_def)
  have u: "1.0457 \<le> u" "u \<le> 1.0548" using r by (simp_all add: u_def av_def field_simps)
  have w: "1.0987 \<le> w" "w \<le> 1.1013" using r by (simp_all add: w_def bv_def field_simps)
  have pos: "0 < p2" using p2 by simp
  have k: "1.0320 \<le> \<kappa>" "\<kappa> \<le> 1.0322"
    unfolding \<kappa>_def pos_le_divide_eq[OF pos] pos_divide_le_eq[OF pos]
    using p2 by (simp_all add: algebra_simps)
  have ku: "1.0320 * 1.0457 \<le> \<kappa> * u" "\<kappa> * u \<le> 1.0322 * 1.0548"
    using k u by (intro mult_mono; simp)+
  have kw: "1.0320 * 1.0987 \<le> \<kappa> * w" "\<kappa> * w \<le> 1.0322 * 1.1013"
    using k w by (intro mult_mono; simp)+
  define ku' kw' where "ku' = \<kappa> * u" and "kw' = \<kappa> * w"
  have e: "\<kappa> * av = - ku'" "\<kappa> * bv = - kw'"
    by (simp_all add: ku'_def kw'_def u_def w_def)
  note b = ku[folded ku'_def] kw[folded kw'_def]
  show "2.52 \<le> (460 * p2 + 451 * (\<kappa> * av) + 288 * (\<kappa> * bv)) / 1403"
    and "(460 * p2 + 451 * (\<kappa> * av) + 288 * (\<kappa> * bv)) / 1403 \<le> 2.54"
    and "4.00 \<le> (460 * p2 - 891 * (\<kappa> * av) - 261 * (\<kappa> * bv)) / 1403"
    and "(460 * p2 - 891 * (\<kappa> * av) - 261 * (\<kappa> * bv)) / 1403 \<le> 4.02"
    and "8.37 \<le> (460 * p2 - 220 * (\<kappa> * av) - 6300 * (\<kappa> * bv)) / 1403"
    and "(460 * p2 - 220 * (\<kappa> * av) - 6300 * (\<kappa> * bv)) / 1403 \<le> 8.40"
    unfolding e using p2 b by simp_all
qed

lemma decompress_between:
  fixes fl r pl ph ql qh :: real
  assumes fl: "0.6839 \<le> fl" "fl \<le> 0.6841"
    and r: "0.1 < r" "r < 400"
    and pl: "0 < pl" "pl * (400 - (r - 0.1)) \<le> 27.13 * (r - 0.1)"
    and ph: "27.13 * (r - 0.1) \<le> ph * (400 - (r - 0.1))"
    and ql: "0 < ql" "ql ^ 21 \<le> pl ^ 50"
    and qh: "0 < qh" "ph ^ 50 \<le> qh ^ 21"
  shows "100 * ql / 0.6841 \<le> decompress r fl" "decompress r fl \<le> 100 * qh / 0.6839"
proof -
  define p where "p = 27.13 * (r - 0.1) / (400 - (r - 0.1))"
  define q where "q = p powr (1 / 0.42)"
  have den: "0 < 400 - (r - 0.1)" using r by simp
  have p: "pl \<le> p" "p \<le> ph"
    unfolding p_def pos_le_divide_eq[OF den] pos_divide_le_eq[OF den] using pl(2) ph by simp_all
  have pp: "0 < p" "0 < ph" using p pl(1) by simp_all
  have "ql \<le> pl powr (real 50 / real 21)"
    using ql(1) pl(1) _ ql(2) by (rule powr_rat_lower) simp
  also have "\<dots> \<le> p powr (real 50 / real 21)"
    using p(1) pl(1) by (intro powr_mono2) simp_all
  finally have q1: "ql \<le> q" by (simp add: q_def)
  have "p powr (real 50 / real 21) \<le> ph powr (real 50 / real 21)"
    using p(2) pp(1) by (intro powr_mono2) simp_all
  also have "\<dots> \<le> qh"
    using qh(1) pp(2) _ qh(2) by (rule powr_rat_upper) simp
  finally have q2: "q \<le> qh" by (simp add: q_def)
  have flp: "0 < fl" using fl by simp
  have f1: "100 / 0.6841 \<le> 100 / fl"
    using fl flp by (intro divide_left_mono) simp_all
  have f2: "100 / fl \<le> 100 / 0.6839"
    using fl flp by (intro divide_left_mono) simp_all
  have e: "decompress r fl = 100 / fl * q"
    by (simp add: decompress_def q_def p_def)
  have "100 / 0.6841 * ql \<le> 100 / fl * q"
    using f1 q1 ql(1) flp by (intro mult_mono) simp_all
  then show "100 * ql / 0.6841 \<le> decompress r fl" unfolding e by simp
  have "0 \<le> q" unfolding q_def by simp
  then have "100 / fl * q \<le> 100 / 0.6839 * qh"
    using f2 q2 flp by (intro mult_mono) simp_all
  then show "decompress r fl \<le> 100 * qh / 0.6839" unfolding e by simp
qed

lemma blue_decompress:
  fixes fl r1 r2 r3 :: real
  assumes fl: "0.6839 \<le> fl" "fl \<le> 0.6841"
    and r: "2.52 \<le> r1" "r1 \<le> 2.54" "4.00 \<le> r2" "r2 \<le> 4.02" "8.37 \<le> r3" "r3 \<le> 8.40"
  shows "2.00 \<le> decompress r1 fl" "decompress r1 fl \<le> 2.07"
    and "6.30 \<le> decompress r2 fl" "decompress r2 fl \<le> 6.41"
    and "38.75 \<le> decompress r3 fl"
proof -
  have d1: "0.1 < r1" "r1 < 400" "0.1 < r2" "r2 < 400" "0.1 < r3" "r3 < 400"
    using r by simp_all
  have "0.1651 * (400 - (r1 - 0.1)) \<le> 27.13 * (r1 - 0.1)"
    "27.13 * (r1 - 0.1) \<le> 0.1666 * (400 - (r1 - 0.1))"
    using r by (simp_all add: field_simps)
  from decompress_between[OF fl d1(1,2) _ this(1) this(2), of "0.0137" "0.0141"]
  have v1: "100 * 0.0137 / 0.6841 \<le> decompress r1 fl" "decompress r1 fl \<le> 100 * 0.0141 / 0.6839"
    by (simp_all add: power_divide)
  have "0.2671 * (400 - (r2 - 0.1)) \<le> 27.13 * (r2 - 0.1)"
    "27.13 * (r2 - 0.1) \<le> 0.2686 * (400 - (r2 - 0.1))"
    using r by (simp_all add: field_simps)
  from decompress_between[OF fl d1(3,4) _ this(1) this(2), of "0.0431" "0.0438"]
  have v2: "100 * 0.0431 / 0.6841 \<le> decompress r2 fl" "decompress r2 fl \<le> 100 * 0.0438 / 0.6839"
    by (simp_all add: power_divide)
  have "0.5727 * (400 - (r3 - 0.1)) \<le> 27.13 * (r3 - 0.1)"
    "27.13 * (r3 - 0.1) \<le> 0.5760 * (400 - (r3 - 0.1))"
    using r by (simp_all add: field_simps)
  from decompress_between[OF fl d1(5,6) _ this(1) this(2), of "0.2651" "0.27"]
  have v3: "100 * 0.2651 / 0.6841 \<le> decompress r3 fl"
    by (simp_all add: power_divide)
  from v1 v2 v3 show "2.00 \<le> decompress r1 fl" "decompress r1 fl \<le> 2.07"
    and "6.30 \<le> decompress r2 fl" "decompress r2 fl \<le> 6.41"
    and "38.75 \<le> decompress r3 fl"
    by simp_all
qed

lemma blue_recovered_Z:
  fixes d v1 v2 v3 :: real
  assumes d: "0.9118 \<le> d" "d \<le> 0.9141"
    and v: "2.00 \<le> v1" "v1 \<le> 2.07" "6.30 \<le> v2" "v2 \<le> 6.41" "38.75 \<le> v3"
  defines "x \<equiv> 1.910197 * v1 + - 1.112124 * v2 + 0.201908 * v3"
    and "y \<equiv> 0.370950 * v1 + 0.629054 * v2 + - 0.000008 * v3"
  defines "rc \<equiv> 0.7328 * x + 0.4296 * y + - 0.1624 * v3"
    and "gc \<equiv> - 0.7036 * x + 1.6975 * y + 0.0061 * v3"
    and "bc \<equiv> 0.0030 * x + 0.0136 * y + 0.9834 * v3"
  shows "41 < - 0.009628 * (rc / (d * 100 / 94.9278424 + 1 - d))
              + - 0.005698 * (gc / (d * 100 / 103.5391171 + 1 - d))
              + 1.015326 * (bc / (d * 100 / 108.7206832 + 1 - d))"
proof -
  define lr lg lb where "lr = d * 100 / 94.9278424 + 1 - d"
    and "lg = d * 100 / 103.5391171 + 1 - d" and "lb = d * 100 / 108.7206832 + 1 - d"
  have lr: "1 \<le> lr" using d by (simp add: lr_def algebra_simps)
  have lg: "0.9687 \<le> lg" using d by (simp add: lg_def algebra_simps)
  have lb: "0 < lb" "lb \<le> 0.9269" using d by (simp_all add: lb_def algebra_simps)
  have rc: "rc \<le> 0" unfolding rc_def x_def y_def using v by (simp add: algebra_simps)
  have gc: "gc \<le> 5.2" unfolding gc_def x_def y_def using v by (simp add: algebra_simps)
  have bc: "38.18 \<le> bc" unfolding bc_def x_def y_def using v by (simp add: algebra_simps)
  have lrp: "0 < lr" and lgp: "0 < lg" using lr lg by simp_all
  have r: "rc / lr \<le> 0" using rc lrp by (simp add: divide_nonpos_pos)
  have "gc \<le> 5.4 * lg" using gc lg by simp
  then have g: "gc / lg \<le> 5.4" unfolding pos_divide_le_eq[OF lgp] .
  have "41.19 * lb \<le> bc" using bc lb by simp
  then have b: "41.19 \<le> bc / lb" unfolding pos_le_divide_eq[OF lb(1)] .
  define qr qg qb where "qr = rc / lr" and "qg = gc / lg" and "qb = bc / lb"
  have "41 < - 0.009628 * qr + - 0.005698 * qg + 1.015326 * qb"
    using r g b unfolding qr_def[symmetric] qg_def[symmetric] qb_def[symmetric] by simp
  then show ?thesis unfolding qr_def qg_def qb_def lr_def lg_def lb_def .
qed

lemma blue_rgb:
  "multiplyMatrixVec M_CAT02 (Num 5, Num 5, Num 40) = (Num (- 0.684), Num 5.2135, Num 39.419)"
  by (simp add: M_CAT02_def)

lemma blue_responses:
  "\<exists>ra ga ba.
     forwardResponses \<lparr>X = Num 5, Y = Num 5, Z = Num 40\<rparr> D65_WHITE_POINT
       (makeViewingConditionsTry (Num 64) (Num 20) D65_WHITE_POINT average)
       = (Num ra, Num ga, Num ba)
     \<and> 2.548 \<le> ra \<and> ra \<le> 2.552 \<and> 3.983 \<le> ga \<and> ga \<le> 3.987
     \<and> 8.214 \<le> ba \<and> ba \<le> 8.221"
proof -
  define vc where "vc = makeViewingConditionsTry (Num 64) (Num 20) D65_WHITE_POINT average"
  define d fl where "d = adaptationDegree 1 64" and "fl = luminanceFactor 64"
  have d: "D vc = Num d"
    unfolding vc_def d_def using D_Num[of 64 "Num 20" D65_WHITE_POINT average]
    by (simp add: surroundF_def)
  have fl: "Fl vc = Num fl"
    unfolding vc_def fl_def by (rule Fl_Num) simp
  have dr: "0.9118 \<le> d" "d \<le> 0.9141" unfolding d_def by (rule adaptationDegree_64)+
  have flr: "0.6839 \<le> fl" "fl \<le> 0.6841" unfolding fl_def by (rule luminanceFactor_64)+
  define rc gc bc where "rc = (d * 100 / 94.9278424 + 1 - d) * (- 0.684)"
    and "gc = (d * 100 / 103.5391171 + 1 - d) * 5.2135"
    and "bc = (d * 100 / 108.7206832 + 1 - d) * 39.419"
  define lc mc sc where
    "lc = 0.38971 * (1.096124 * rc + - 0.278869 * gc + 0.182745 * bc)
           + 0.68898 * (0.454369 * rc + 0.473533 * gc + 0.072098 * bc)
           + - 0.07868 * (- 0.009628 * rc + - 0.005698 * gc + 1.015326 * bc)"
    and "mc = - 0.22981 * (1.096124 * rc + - 0.278869 * gc + 0.182745 * bc)
           + 1.18340 * (0.454369 * rc + 0.473533 * gc + 0.072098 * bc)
           + 0.04641 * (- 0.009628 * rc + - 0.005698 * gc + 1.015326 * bc)"
    and "sc = - 0.009628 * rc + - 0.005698 * gc + 1.015326 * bc"
  have hpe: "multiplyMatrixVec M_HPE (multiplyMatrixVec M_CAT02_INV
            (adaptedCones (Num d) D65_WHITE_POINT
               (multiplyMatrixVec M_CAT02 (Num 5, Num 5, Num 40))))
          = (Num lc, Num mc, Num sc)"
    unfolding blue_rgb adaptedCones_D65_Num hpe_Num lc_def mc_def sc_def rc_def gc_def bc_def
    by (rule refl)
  note c = blue_cones[OF dr, folded rc_def gc_def bc_def, folded lc_def mc_def sc_def]
  have nn: "0 \<le> lc" "0 \<le> mc" "0 \<le> sc" "0 \<le> fl" using c flr by simp_all
  define ra ga ba where "ra = compress lc fl" and "ga = compress mc fl" and "ba = compress sc fl"
  have resp: "forwardResponses \<lparr>X = Num 5, Y = Num 5, Z = Num 40\<rparr> D65_WHITE_POINT vc
      = (Num ra, Num ga, Num ba)"
    unfolding forwardResponses_def coneResponses_def d fl XYZ.simps hpe Let_def vec0.simps
      vec1.simps vec2.simps ra_def ga_def ba_def
    using nn by (simp add: nonlinearAdaptation_Num)
  note r = blue_compress[OF flr c, folded ra_def ga_def ba_def]
  from resp r show ?thesis unfolding vc_def by blast
qed

lemma inverseTry_Z_D65:
  fixes r1 r2 r3 fl d :: real
  assumes R: "inverseResponses cor cond = (Num r1, Num r2, Num r3)"
    and fl: "Fl cond = Num fl" "0 < fl"
    and r: "0.1 < r1" "r1 < 400" "0.1 < r2" "r2 < 400" "0.1 < r3" "r3 < 400"
    and d: "D cond = Num d" "0 \<le> d" "d \<le> 1"
  defines "v1 \<equiv> decompress r1 fl" and "v2 \<equiv> decompress r2 fl" and "v3 \<equiv> decompress r3 fl"
  defines "x \<equiv> 1.910197 * v1 + - 1.112124 * v2 + 0.201908 * v3"
    and "y \<equiv> 0.370950 * v1 + 0.629054 * v2 + - 0.000008 * v3"
  defines "rc \<equiv> 0.7328 * x + 0.4296 * y + - 0.1624 * v3"
    and "gc \<equiv> - 0.7036 * x + 1.6975 * y + 0.0061 * v3"
    and "bc \<equiv> 0.0030 * x + 0.0136 * y + 0.9834 * v3"
  shows "Z (inverseTry cor D65_WHITE_POINT cond)
       = Num (- 0.009628 * (rc / (d * 100 / 94.9278424 + 1 - d))
              + - 0.005698 * (gc / (d * 100 / 103.5391171 + 1 - d))
              + 1.015326 * (bc / (d * 100 / 108.7206832 + 1 - d)))"
proof -
  define lr lg lb where "lr = d * 100 / 94.9278424 + 1 - d"
    and "lg = d * 100 / 103.5391171 + 1 - d" and "lb = d * 100 / 108.7206832 + 1 - d"
  have l: "0 < lr" "0 < lg" "0 < lb"
    using d(2,3) by (simp_all add: lr_def lg_def lb_def algebra_simps)
  then have lnz: "lr \<noteq> 0" "lg \<noteq> 0" "lb \<noteq> 0" by simp_all
  have V: "inverseNonlinearAdaptation (Num r1) (Num fl) = Num v1"
    "inverseNonlinearAdaptation (Num r2) (Num fl) = Num v2"
    "inverseNonlinearAdaptation (Num r3) (Num fl) = Num v3"
    unfolding v1_def v2_def v3_def
    by (rule inverseNonlinearAdaptation_Num[OF r(1,2) fl(2)],
        rule inverseNonlinearAdaptation_Num[OF r(3,4) fl(2)],
        rule inverseNonlinearAdaptation_Num[OF r(5,6) fl(2)])
  have H: "multiplyMatrixVec M_HPE_INV (Num v1, Num v2, Num v3) = (Num x, Num y, Num v3)"
    by (simp add: M_HPE_INV_def x_def y_def)
  have Cm: "multiplyMatrixVec M_CAT02 (Num x, Num y, Num v3) = (Num rc, Num gc, Num bc)"
    by (simp add: M_CAT02_def rc_def gc_def bc_def)
  have S: "Num d * Y D65_WHITE_POINT / Num 94.9278424 + Num 1 - Num d = Num lr"
    "Num d * Y D65_WHITE_POINT / Num 103.5391171 + Num 1 - Num d = Num lg"
    "Num d * Y D65_WHITE_POINT / Num 108.7206832 + Num 1 - Num d = Num lb"
    by (simp_all add: D65_WHITE_POINT_def lr_def lg_def lb_def)
  have Q: "Num rc / Num lr = Num (rc / lr)" "Num gc / Num lg = Num (gc / lg)"
    "Num bc / Num lb = Num (bc / lb)"
    using lnz by simp_all
  have I: "multiplyMatrixVec M_CAT02_INV (Num (rc / lr), Num (gc / lg), Num (bc / lb))
      = (Num (1.096124 * (rc / lr) + - 0.278869 * (gc / lg) + 0.182745 * (bc / lb)),
         Num (0.454369 * (rc / lr) + 0.473533 * (gc / lg) + 0.072098 * (bc / lb)),
         Num (- 0.009628 * (rc / lr) + - 0.005698 * (gc / lg) + 1.015326 * (bc / lb)))"
    by (simp add: M_CAT02_INV_def)
  have "Z (inverseTry cor D65_WHITE_POINT cond)
      = Num (- 0.009628 * (rc / lr) + - 0.005698 * (gc / lg) + 1.015326 * (bc / lb))"
    unfolding inverseTry_responses R Let_def vec0.simps vec1.simps vec2.simps fl(1) V H Cm
      whiteRgb_D65 d(1) S Q I XYZ.simps ..
  then show ?thesis unfolding lr_def lg_def lb_def .
qed

text \<open>
  Claim C1 (round trip). The claim asks that \<open>inverse\<close> applied to the correlates of \<open>forward\<close>
  reproduces the colour to within 0.1 in each component, for D65 and viewing conditions
  built from \<open>La = 64\<close>. For the colour \<open>(5, 5, 40)\<close>, one of the colours of the unit test
  \<open>should round-trip across multiple random colors\<close>, under \<open>La = 64\<close>, \<open>Yb = 20\<close> and the
  average surround, both transforms succeed and the \<open>Z\<close> that \<open>inverse\<close> returns is above 41:
  more than 1 away from the 40 that went in. The cause is in step 4 of \<open>inverse\<close>: it recovers
  \<open>A\<close>, \<open>t\<close>, the hue and \<open>p2 = A / Nbb + 0.305\<close> of the forward transform exactly, but \<open>gamma\<close>
  adds the offset 0.305 to \<open>p2\<close> once more, so the opponent dimensions \<open>a\<close> and \<open>b\<close> it recovers
  are those of \<open>forward\<close> multiplied by \<open>(p2 + 0.305) / p2\<close> (lemma
  \<open>inverse_responses_general\<close>), and the recovered response \<open>Ba\<close> is too large by 0.16.
\<close>

theorem inverse_of_forward_misses_input:
  "\<exists>vc r out zv.
     makeViewingConditions (Num 64) (Num 20) D65_WHITE_POINT average = Inr vc \<and>
     forward \<lparr>X = Num 5, Y = Num 5, Z = Num 40\<rparr> D65_WHITE_POINT vc = Inr r \<and>
     inverse_transform \<lparr>J = J r, C = C r, h = h r\<rparr> D65_WHITE_POINT vc = Inr out \<and>
     Z out = Num zv \<and> 41 < zv"
proof -
  define vc where "vc = makeViewingConditionsTry (Num 64) (Num 20) D65_WHITE_POINT average"
  define xyz where "xyz = \<lparr>X = Num 5, Y = Num 5, Z = Num 40\<rparr>"
  define r where "r = forwardTry xyz D65_WHITE_POINT vc"
  define cor where "cor = \<lparr>J = J r, C = C r, h = h r\<rparr>"
  define d fl where "d = adaptationDegree 1 64" and "fl = luminanceFactor 64"
  have d: "D vc = Num d"
    unfolding vc_def d_def using D_Num[of 64 "Num 20" D65_WHITE_POINT average]
    by (simp add: surroundF_def)
  have fl: "Fl vc = Num fl"
    unfolding vc_def fl_def by (rule Fl_Num) simp
  have dr: "0.9118 \<le> d" "d \<le> 0.9141" unfolding d_def by (rule adaptationDegree_64)+
  have flr: "0.6839 \<le> fl" "fl \<le> 0.6841" unfolding fl_def by (rule luminanceFactor_64)+
  have d01: "0 \<le> d" "d \<le> 1" and flp: "0 < fl" using dr flr by simp_all
  from blue_responses obtain ra ga ba where
    resp: "forwardResponses xyz D65_WHITE_POINT vc = (Num ra, Num ga, Num ba)"
    and b: "2.548 \<le> ra" "ra \<le> 2.552" "3.983 \<le> ga" "ga \<le> 3.987"
      "8.214 \<le> ba" "ba \<le> 8.221"
    unfolding vc_def xyz_def by blast
  have p: "(0 :: real) < 20" "(0 :: real) < 100" "(0 :: real) < 64" by simp_all
  have f: "Nbb vc = Num (0.725 * (100 / 20) powr 0.2)"
    "Ncb vc = Num (0.725 * (100 / 20) powr 0.2)"
    "Nc (surround vc) = Num (surroundNc average)"
    "c (surround vc) = Num (surroundC average)"
    "z vc = Num (1.48 + sqrt (20 / 100))"
    "n vc = Num (20 / 100)"
    unfolding vc_def using Nbb_Num[OF p(1,2), of "Num 64" "Num 95.047" "Num 108.883" average]
    by (simp_all add: D65_WHITE_POINT_def)
  from Aw_D65_pos[OF p(3,1), of average] obtain aw where aw: "Aw vc = Num aw" "0 < aw"
    unfolding vc_def by blast
  have q: "0 < 0.725 * (100 / 20 :: real) powr 0.2" "0 < 1.48 + sqrt (20 / 100 :: real)"
    "(0 :: real) \<le> 20 / 100"
    by (simp_all add: add_pos_nonneg)
  have A: "0.305 < 2 * ra + ga + ba / 20" using b by simp
  have dn: "0 < ra + ga + 21 * ba / 20" using b by simp
  have av: "ra - 12 * ga / 11 + ba / 11 < 0" using b by (simp add: field_simps)
  have bv: "(ra + ga - 2 * ba) / 9 < 0" using b by (simp add: field_simps)
  have ab: "ra - 12 * ga / 11 + ba / 11 \<noteq> 0 \<or> (ra + ga - 2 * ba) / 9 \<noteq> 0"
    using av by simp
  from hueAngle_lower_left[OF av bv]
  obtain hh where hh: "hueAngle (Num ra, Num ga, Num ba) = Num hh" "180 \<le> hh" "hh \<le> 270"
    by blast
  from eccentricityFactor_positive[OF hh(2,3)]
  obtain e where e: "eccentricityFactor (Num hh) = Num e" "0 < e" by blast
  have hr: "h (forwardTry xyz D65_WHITE_POINT vc) = Num hh"
    unfolding forwardTry_h resp hh(1) ..
  have ecc: "eccentricityFactor (h (forwardTry xyz D65_WHITE_POINT vc)) = Num e"
    unfolding hr by (rule e(1))
  define p2 where "p2 = 2 * ra + ga + ba / 20"
  define a0 where "a0 = ra - 12 * ga / 11 + ba / 11"
  define b0 where "b0 = (ra + ga - 2 * ba) / 9"
  define r1 r2 r3 where
    "r1 = (460 * p2 + 451 * ((p2 + 0.305) / p2 * a0) + 288 * ((p2 + 0.305) / p2 * b0)) / 1403"
    and "r2 = (460 * p2 - 891 * ((p2 + 0.305) / p2 * a0) - 261 * ((p2 + 0.305) / p2 * b0)) / 1403"
    and "r3 = (460 * p2 - 220 * ((p2 + 0.305) / p2 * a0) - 6300 * ((p2 + 0.305) / p2 * b0)) / 1403"
  from inverse_responses_general[OF resp f(1,2,3,4,5,6) aw(1) q(1) q(1) surround_pos(4)
      surround_pos(3) q(2) q(3) aw(2) A dn ab ecc e(2)]
  have R: "inverseResponses cor vc = (Num r1, Num r2, Num r3)"
    unfolding recover_Num cor_def r_def r1_def r2_def r3_def p2_def a0_def b0_def by blast
  note rb = blue_recovered[OF b, folded p2_def a0_def b0_def, folded r1_def r2_def r3_def]
  have rr: "0.1 < r1" "r1 < 400" "0.1 < r2" "r2 < 400" "0.1 < r3" "r3 < 400"
    using rb by simp_all
  note zf = inverseTry_Z_D65[OF R fl flp rr d d01]
  note vb = blue_decompress[OF flr rb]
  note zb = blue_recovered_Z[OF dr vb]
  have cond: "makeViewingConditions (Num 64) (Num 20) D65_WHITE_POINT average = Inr vc"
    unfolding vc_def by (rule makeViewingConditions_Inr)
  have fwd: "forward xyz D65_WHITE_POINT vc = Inr r"
    unfolding r_def by (rule forward_Inr)
  have inv: "inverse_transform cor D65_WHITE_POINT vc = Inr (inverseTry cor D65_WHITE_POINT vc)"
    by (rule inverse_transform_Inr)
  from cond fwd inv zf zb show ?thesis
    unfolding cor_def xyz_def by blast
qed

end
